theory Spec2Isabelle
  imports Main "HOL-Library.Multiset"
begin

section \<open>Recurring events: rows, rules and requests\<close>

text \<open>
  The route handlers of \<^verbatim>\<open>src/routes/events.js\<close> work on three tables:
  \<^verbatim>\<open>Recurring_Events\<close> (the templates), \<^verbatim>\<open>Event_Instances\<close> (one row per
  occurrence) and \<^verbatim>\<open>Event_Exceptions\<close>. A table is the list of its rows in insertion
  order. The columns \<^verbatim>\<open>created_at\<close> and \<^verbatim>\<open>updated_at\<close> are left out: no handler
  reads them.

  A calendar date is a text \<^verbatim>\<open>YYYY-MM-DD\<close> in the source, compared as text by SQL
  (\<^verbatim>\<open>instance_date >= ?\<close>) and by JavaScript (\<^verbatim>\<open>instance.instance_date < today\<close>).
  It is modelled by its day number, counted from 1970-01-01: on dates of four-digit years
  the order of the texts is the order of the day numbers.
\<close>

type_synonym date = nat

datatype freq = daily | weekly | monthly | yearly

datatype weekday = MO | TU | WE | TH | FR | SA | SU

text \<open>
  The object \<^verbatim>\<open>parseRRule\<close> returns; the handlers read \<^verbatim>\<open>frequency\<close>,
  \<^verbatim>\<open>interval\<close>, \<^verbatim>\<open>days_of_week\<close> and \<^verbatim>\<open>count\<close> from it.
\<close>

record rrule =
  r_frequency :: freq
  r_interval :: nat
  r_days_of_week :: "weekday list option"
  r_count :: "nat option"
  r_until :: "date option"

text \<open>A row of \<^verbatim>\<open>Recurring_Events\<close>; \<open>None\<close> is SQL's NULL.\<close>

record event =
  e_id :: nat
  e_title :: string
  e_description :: "string option"
  e_start_date :: date
  e_end_date :: date
  e_frequency :: "freq option"
  e_interval :: "nat option"
  e_days_of_week :: "weekday list option"
  e_start_time :: "string option"
  e_end_time :: "string option"
  e_location :: "string option"

text \<open>
  The values bound to one \<^verbatim>\<open>INSERT INTO Event_Instances\<close>, which are the fields of the
  objects \<^verbatim>\<open>generateInstances\<close> returns, and the stored row: the same values under an
  \<^verbatim>\<open>id INTEGER PRIMARY KEY AUTOINCREMENT\<close>.
\<close>

record occurrence =
  i_recurring_event_id :: nat
  i_instance_date :: date
  i_start_time :: "string option"
  i_end_time :: "string option"
  i_title :: string
  i_description :: "string option"
  i_location :: "string option"
  i_is_cancelled :: bool

record event_instance = occurrence +
  i_id :: nat

text \<open>
  A row of \<^verbatim>\<open>Event_Exceptions\<close> with the columns the handlers name:
  \<^verbatim>\<open>recurring_event_id, instance_date, exception_type\<close>.
\<close>

record event_exception =
  x_id :: nat
  x_recurring_event_id :: nat
  x_instance_date :: date
  x_exception_type :: string

text \<open>
  The three tables and, for each, the last identifier \<^verbatim>\<open>AUTOINCREMENT\<close> handed out
  (SQLite keeps it in \<^verbatim>\<open>sqlite_sequence\<close>, so an identifier is never used twice).

  \<open>unique_pair\<close> says whether \<^verbatim>\<open>Event_Instances\<close> has a unique index on
  \<^verbatim>\<open>(recurring_event_id, instance_date)\<close>. The table the sources declare has none:

  \<^verbatim>\<open>CREATE TABLE IF NOT EXISTS Event_Instances (id INTEGER PRIMARY KEY AUTOINCREMENT,
  recurring_event_id INTEGER NOT NULL, instance_date DATE NOT NULL, start_time TIME,
  end_time TIME, title TEXT NOT NULL, description TEXT, location TEXT, is_cancelled BOOLEAN
  DEFAULT FALSE, created_at ..., updated_at ..., FOREIGN KEY (recurring_event_id) REFERENCES
  Recurring_Events(id) ON DELETE CASCADE)\<close>

  and the two indexes created on it, on \<^verbatim>\<open>instance_date\<close> and on
  \<^verbatim>\<open>recurring_event_id\<close>, are plain ones. So the tables of the program have
  \<open>unique_pair = False\<close>. The other value is the table that the conflict target of the
  update handler's statement names; it is kept to tell what that statement does there.
\<close>

record database =
  Recurring_Events :: "event list"
  Event_Instances :: "event_instance list"
  Event_Exceptions :: "event_exception list"
  seq_Recurring_Events :: nat
  seq_Event_Instances :: nat
  seq_Event_Exceptions :: nat
  unique_pair :: bool

text \<open>The tables as the sources declare them, with no row.\<close>

definition empty_database :: database where
  "empty_database =
     \<lparr>Recurring_Events = [], Event_Instances = [], Event_Exceptions = [],
      seq_Recurring_Events = 0, seq_Event_Instances = 0, seq_Event_Exceptions = 0,
      unique_pair = False\<rparr>"

section \<open>The persistence gateway\<close>

text \<open>
  What \<^verbatim>\<open>env.DB\<close> holds: the current contents \<open>db\<close>, inside a transaction the contents
  at \<^verbatim>\<open>BEGIN\<close> (\<open>txn\<close>, to which \<^verbatim>\<open>ROLLBACK\<close> returns), and a fault to be injected:
  \<open>fault = Some k\<close> makes the statement after the next \<open>k\<close> ones raise, once. With no
  transaction open every statement is committed as it completes.
\<close>

datatype error =
    NotNullViolation
  | UniqueViolation
  | ConflictTargetMismatch
  | StoreFailure
  | TransactionOpen
  | NoTransaction
  | TypeError

record store =
  db :: database
  txn :: "database option"
  fault :: "nat option"

type_synonym stmt = "store \<Rightarrow> error option \<times> store"

definition tick :: "store \<Rightarrow> store" where
  "tick s = s\<lparr>fault := (case fault s of None \<Rightarrow> None | Some k \<Rightarrow> Some (k - 1))\<rparr>"

text \<open>\<^verbatim>\<open>prepare(...).bind(...).run()\<close>: a failed statement leaves the tables as they were.\<close>

definition run :: "(database \<Rightarrow> error + database) \<Rightarrow> stmt" where
  "run q s =
     (if fault s = Some 0 then (Some StoreFailure, s\<lparr>fault := None\<rparr>)
      else case q (db s) of
             Inl e \<Rightarrow> (Some e, tick s)
           | Inr d \<Rightarrow> (None, (tick s)\<lparr>db := d\<rparr>))"

text \<open>A statement that no declared constraint can refuse.\<close>

definition exec :: "(database \<Rightarrow> database) \<Rightarrow> stmt" where
  "exec f = run (\<lambda>d. Inr (f d))"

text \<open>
  An error of JavaScript raised between two statements, while the values of the next one
  are computed. It does not reach the store.
\<close>

definition throw :: "error \<Rightarrow> stmt" where
  "throw e s = (Some e, s)"

definition BEGIN :: stmt where
  "BEGIN s =
     (if fault s = Some 0 then (Some StoreFailure, s\<lparr>fault := None\<rparr>)
      else case txn s of
             Some _ \<Rightarrow> (Some TransactionOpen, tick s)
           | None \<Rightarrow> (None, (tick s)\<lparr>txn := Some (db s)\<rparr>))"

definition COMMIT :: stmt where
  "COMMIT s =
     (if fault s = Some 0 then (Some StoreFailure, s\<lparr>fault := None\<rparr>)
      else case txn s of
             None \<Rightarrow> (Some NoTransaction, tick s)
           | Some _ \<Rightarrow> (None, (tick s)\<lparr>txn := None\<rparr>))"

text \<open>\<^verbatim>\<open>ROLLBACK\<close> runs in the handlers' \<^verbatim>\<open>catch\<close> only; it is not a fault point.\<close>

definition ROLLBACK :: stmt where
  "ROLLBACK s =
     (case txn s of
        None \<Rightarrow> (Some NoTransaction, s)
      | Some d \<Rightarrow> (None, s\<lparr>db := d, txn := None\<rparr>))"

text \<open>Statements awaited one after the other; the first that raises ends the sequence.\<close>

fun run_all :: "stmt list \<Rightarrow> stmt" where
  "run_all [] s = (None, s)"
| "run_all (q # qs) s =
     (case q s of
        (Some e, s') \<Rightarrow> (Some e, s')
      | (None, s') \<Rightarrow> run_all qs s')"

subsection \<open>The statements of the delete handler\<close>

text \<open>\<^verbatim>\<open>DELETE FROM Event_Instances WHERE recurring_event_id = ?\<close>\<close>

definition delete_instances_of :: "nat \<Rightarrow> database \<Rightarrow> database" where
  "delete_instances_of eventId d =
     d\<lparr>Event_Instances :=
         filter (\<lambda>r. i_recurring_event_id r \<noteq> eventId) (Event_Instances d)\<rparr>"

text \<open>\<^verbatim>\<open>DELETE FROM Event_Exceptions WHERE recurring_event_id = ?\<close>\<close>

definition delete_exceptions_of :: "nat \<Rightarrow> database \<Rightarrow> database" where
  "delete_exceptions_of eventId d =
     d\<lparr>Event_Exceptions :=
         filter (\<lambda>x. x_recurring_event_id x \<noteq> eventId) (Event_Exceptions d)\<rparr>"

text \<open>\<^verbatim>\<open>DELETE FROM Recurring_Events WHERE id = ?\<close>\<close>

definition delete_recurring_event :: "nat \<Rightarrow> database \<Rightarrow> database" where
  "delete_recurring_event eventId d =
     d\<lparr>Recurring_Events := filter (\<lambda>e. e_id e \<noteq> eventId) (Recurring_Events d)\<rparr>"

text \<open>
  \<^verbatim>\<open>UPDATE Event_Instances SET is_cancelled = 1 WHERE recurring_event_id = ? AND
  instance_date >= ?\<close>
\<close>

definition cancel_from :: "nat \<Rightarrow> date \<Rightarrow> database \<Rightarrow> database" where
  "cancel_from eventId instanceDate d =
     d\<lparr>Event_Instances :=
         map (\<lambda>r. if i_recurring_event_id r = eventId \<and> instanceDate \<le> i_instance_date r
                   then r\<lparr>i_is_cancelled := True\<rparr> else r)
             (Event_Instances d)\<rparr>"

text \<open>
  \<^verbatim>\<open>UPDATE Event_Instances SET is_cancelled = 1 WHERE recurring_event_id = ? AND
  instance_date = ?\<close>
\<close>

definition cancel_at :: "nat \<Rightarrow> date \<Rightarrow> database \<Rightarrow> database" where
  "cancel_at eventId instanceDate d =
     d\<lparr>Event_Instances :=
         map (\<lambda>r. if i_recurring_event_id r = eventId \<and> i_instance_date r = instanceDate
                   then r\<lparr>i_is_cancelled := True\<rparr> else r)
             (Event_Instances d)\<rparr>"

text \<open>
  \<^verbatim>\<open>SELECT instance_date FROM Event_Instances WHERE recurring_event_id = ? AND
  instance_date >= ?\<close>
\<close>

definition future_dates :: "nat \<Rightarrow> date \<Rightarrow> database \<Rightarrow> date list" where
  "future_dates eventId instanceDate d =
     map i_instance_date
       (filter (\<lambda>r. i_recurring_event_id r = eventId \<and> instanceDate \<le> i_instance_date r)
          (Event_Instances d))"

text \<open>
  Modelled from the spec: the declaration of \<^verbatim>\<open>Event_Exceptions\<close> that has the columns the
  handlers name is not in the sources (the two declarations present have other columns).
  The spec gives the table a unique \<open>(template_id, occurrence_date)\<close> constraint, which is
  what lets \<^verbatim>\<open>INSERT OR IGNORE INTO Event_Exceptions (recurring_event_id, instance_date,
  exception_type) VALUES (?, ?, 'cancelled')\<close> ignore a pair that is already there. An
  insert that is ignored still uses up the next \<^verbatim>\<open>AUTOINCREMENT\<close> identifier.
\<close>

definition insert_exception_or_ignore :: "nat \<Rightarrow> date \<Rightarrow> database \<Rightarrow> database" where
  "insert_exception_or_ignore eventId instanceDate d =
     (if \<exists>x \<in> set (Event_Exceptions d).
            x_recurring_event_id x = eventId \<and> x_instance_date x = instanceDate
      then d\<lparr>seq_Event_Exceptions := Suc (seq_Event_Exceptions d)\<rparr>
      else d\<lparr>Event_Exceptions :=
               Event_Exceptions d @
                 [\<lparr>x_id = Suc (seq_Event_Exceptions d), x_recurring_event_id = eventId,
                   x_instance_date = instanceDate, x_exception_type = ''cancelled''\<rparr>],
             seq_Event_Exceptions := Suc (seq_Event_Exceptions d)\<rparr>)"

subsection \<open>The statements of the create and update handlers\<close>

text \<open>
  \<^verbatim>\<open>INSERT INTO Recurring_Events (...) VALUES (...)\<close>. The table declares
  \<^verbatim>\<open>frequency TEXT CHECK(frequency IN ('daily', 'weekly', 'monthly', 'yearly')) NOT
  NULL\<close>, so a NULL frequency is refused. The new row takes the next identifier.
\<close>

definition insert_recurring_event :: "event \<Rightarrow> database \<Rightarrow> error + database" where
  "insert_recurring_event v d =
     (if e_frequency v = None then Inl NotNullViolation
      else Inr (d\<lparr>Recurring_Events :=
                    Recurring_Events d @ [v\<lparr>e_id := Suc (seq_Recurring_Events d)\<rparr>],
                  seq_Recurring_Events := Suc (seq_Recurring_Events d)\<rparr>))"

text \<open>\<^verbatim>\<open>UPDATE Recurring_Events SET title = ?, ... WHERE id = ?\<close>\<close>

definition update_recurring_event :: "nat \<Rightarrow> event \<Rightarrow> database \<Rightarrow> error + database" where
  "update_recurring_event eventId v d =
     (if e_frequency v = None \<and> (\<exists>e \<in> set (Recurring_Events d). e_id e = eventId)
      then Inl NotNullViolation
      else Inr (d\<lparr>Recurring_Events :=
                    map (\<lambda>e. if e_id e = eventId then v\<lparr>e_id := e_id e\<rparr> else e)
                        (Recurring_Events d)\<rparr>))"

text \<open>\<^verbatim>\<open>SELECT instance_date FROM Event_Exceptions WHERE recurring_event_id = ?\<close>\<close>

definition exception_dates :: "nat \<Rightarrow> database \<Rightarrow> date list" where
  "exception_dates eventId d =
     map x_instance_date
       (filter (\<lambda>x. x_recurring_event_id x = eventId) (Event_Exceptions d))"

text \<open>
  \<^verbatim>\<open>DELETE FROM Event_Instances WHERE recurring_event_id = ? AND instance_date NOT IN
  (SELECT instance_date FROM Event_Exceptions WHERE recurring_event_id = ?)\<close>
\<close>

definition delete_non_modified :: "nat \<Rightarrow> database \<Rightarrow> database" where
  "delete_non_modified eventId d =
     d\<lparr>Event_Instances :=
         filter (\<lambda>r. \<not> (i_recurring_event_id r = eventId
                         \<and> i_instance_date r \<notin> set (exception_dates eventId d)))
                (Event_Instances d)\<rparr>"

text \<open>The same with \<^verbatim>\<open>AND instance_date >= ?\<close>, bound to today's date.\<close>

definition delete_future_non_modified :: "nat \<Rightarrow> date \<Rightarrow> database \<Rightarrow> database" where
  "delete_future_non_modified eventId today d =
     d\<lparr>Event_Instances :=
         filter (\<lambda>r. \<not> (i_recurring_event_id r = eventId \<and> today \<le> i_instance_date r
                         \<and> i_instance_date r \<notin> set (exception_dates eventId d)))
                (Event_Instances d)\<rparr>"

text \<open>
  \<^verbatim>\<open>INSERT INTO Event_Instances (recurring_event_id, instance_date, start_time, end_time,
  title, description, location, is_cancelled) VALUES (?, ?, ?, ?, ?, ?, ?, ?)\<close>. On the table
  as declared, with the primary key \<^verbatim>\<open>id\<close> and no other key, every row offered is
  stored, under the next identifier. A unique index on the pair would refuse a pair that is
  already stored.
\<close>

definition stored :: "nat \<Rightarrow> occurrence \<Rightarrow> event_instance" where
  "stored n v =
     \<lparr>i_recurring_event_id = i_recurring_event_id v, i_instance_date = i_instance_date v,
      i_start_time = i_start_time v, i_end_time = i_end_time v, i_title = i_title v,
      i_description = i_description v, i_location = i_location v,
      i_is_cancelled = i_is_cancelled v, i_id = n\<rparr>"

definition same_key :: "occurrence \<Rightarrow> event_instance \<Rightarrow> bool" where
  "same_key v r \<longleftrightarrow>
     i_recurring_event_id r = i_recurring_event_id v \<and> i_instance_date r = i_instance_date v"

definition insert_row :: "occurrence \<Rightarrow> database \<Rightarrow> database" where
  "insert_row v d =
     d\<lparr>Event_Instances := Event_Instances d @ [stored (Suc (seq_Event_Instances d)) v],
       seq_Event_Instances := Suc (seq_Event_Instances d)\<rparr>"

definition insert_instance :: "occurrence \<Rightarrow> database \<Rightarrow> error + database" where
  "insert_instance v d =
     (if unique_pair d \<and> (\<exists>r \<in> set (Event_Instances d). same_key v r)
      then Inl UniqueViolation
      else Inr (insert_row v d))"

text \<open>
  The statement of the update handler: the same insert with
  \<^verbatim>\<open>ON CONFLICT(recurring_event_id, instance_date) DO UPDATE SET start_time =
  excluded.start_time, end_time = excluded.end_time, title = excluded.title, description =
  excluded.description, location = excluded.location\<close>.

  SQLite accepts a conflict target only if it is the primary key or the columns of a
  unique index of the table, and otherwise refuses the statement (\<^verbatim>\<open>ON CONFLICT clause
  does not match any PRIMARY KEY or UNIQUE constraint\<close>). So on the table as declared the
  statement is refused, whatever the table holds. The handler prepares the statement once
  and runs it for each instance; the error is taken to come with the run, so that an
  update with no instance to write does not meet it.

  On a table with the unique pair, a row whose pair is already stored is kept, with its
  identifier and its \<^verbatim>\<open>is_cancelled\<close>, and takes the five new values; otherwise the
  row is inserted. Either way the statement uses up the next \<^verbatim>\<open>AUTOINCREMENT\<close>
  identifier.
\<close>

text \<open>The pair the conflict target names.\<close>

definition key_of :: "'a occurrence_scheme \<Rightarrow> nat \<times> date" where
  "key_of r = (i_recurring_event_id r, i_instance_date r)"

definition upsert_row :: "occurrence \<Rightarrow> database \<Rightarrow> database" where
  "upsert_row v d =
     (if \<exists>r \<in> set (Event_Instances d). same_key v r
      then d\<lparr>Event_Instances :=
               map (\<lambda>r. if same_key v r
                         then r\<lparr>i_start_time := i_start_time v, i_end_time := i_end_time v,
                                i_title := i_title v, i_description := i_description v,
                                i_location := i_location v\<rparr>
                         else r)
                   (Event_Instances d),
             seq_Event_Instances := Suc (seq_Event_Instances d)\<rparr>
      else insert_row v d)"

definition upsert_instance :: "occurrence \<Rightarrow> database \<Rightarrow> error + database" where
  "upsert_instance v d =
     (if unique_pair d then Inr (upsert_row v d) else Inl ConflictTargetMismatch)"

text \<open>
  \<^verbatim>\<open>SELECT * FROM Event_Instances WHERE recurring_event_id = ? ORDER BY instance_date
  ASC\<close>
\<close>

definition select_instances :: "nat \<Rightarrow> database \<Rightarrow> event_instance list" where
  "select_instances eventId d =
     sort_key i_instance_date
       (filter (\<lambda>r. i_recurring_event_id r = eventId) (Event_Instances d))"

section \<open>Requests\<close>

text \<open>
  The JSON body of a create or update request. \<open>None\<close> is a field that is absent or
  null, for a datetime also the empty text. A datetime is held as the two parts the
  handlers take with \<^verbatim>\<open>split('T')\<close>: the date before the first \<^verbatim>\<open>T\<close>, and the
  text after it, which is \<open>None\<close> (JavaScript's \<^verbatim>\<open>undefined\<close>) when the text has
  no \<^verbatim>\<open>T\<close>, as in \<^verbatim>\<open>"2025-04-01"\<close>.
\<close>

record datetime =
  dt_date :: date
  dt_time :: "string option"

record body =
  b_title :: "string option"
  b_description :: "string option"
  b_startTime :: "datetime option"
  b_endTime :: "datetime option"
  b_venueId :: "string option"
  b_recurrenceRule :: "string option"
  b_updateScope :: "string option"

text \<open>JavaScript's truth of a text field: absent, null and the empty text are false.\<close>

definition truthy :: "string option \<Rightarrow> bool" where
  "truthy v = (case v of None \<Rightarrow> False | Some t \<Rightarrow> t \<noteq> [])"

fun join :: "string \<Rightarrow> string list \<Rightarrow> string" where
  "join sep [] = []"
| "join sep [x] = x"
| "join sep (x # y # ys) = x @ sep @ join sep (y # ys)"

text \<open>
  \<^verbatim>\<open>validateRequiredFields(data, ['title', 'startTime', 'endTime', 'venueId'])\<close>. The
  handlers use its result as the message of the 400 response
  (\<^verbatim>\<open>if (missingFields) return errorResponse(missingFields, 400)\<close>). The line that
  imports it into \<^verbatim>\<open>routes/events.js\<close> is not in the sources; of the two definitions
  that are, this is the one the handlers' use fits, which returns the message or null
  (the other, in \<^verbatim>\<open>utils/responses.js\<close>, returns an object).
\<close>

definition validateRequiredFields :: "body \<Rightarrow> string option" where
  "validateRequiredFields data =
     (let missingFields =
            map fst (filter (\<lambda>(field, present). \<not> present)
              [(''title'', truthy (b_title data)),
               (''startTime'', b_startTime data \<noteq> None),
               (''endTime'', b_endTime data \<noteq> None),
               (''venueId'', truthy (b_venueId data))])
      in if missingFields \<noteq> []
         then Some (''Missing required fields: '' @ join '', '' missingFields)
         else None)"

text \<open>
  \<^verbatim>\<open>if (data.recurrenceRule) { try { recurrenceRule = parseRRule(...) } catch ... }\<close>:
  an absent or empty rule text is no rule and is not parsed. \<^verbatim>\<open>parseRRule\<close> is not in
  the sources; the handlers take it as the parameter \<open>parse\<close>, \<open>Inl\<close> carrying the
  message of the error it throws.
\<close>

definition parse_rule :: "(string \<Rightarrow> string + rrule) \<Rightarrow> body \<Rightarrow> string + rrule option" where
  "parse_rule parse data =
     (case b_recurrenceRule data of
        None \<Rightarrow> Inr None
      | Some ruleText \<Rightarrow>
          (if ruleText = [] then Inr None
           else (case parse ruleText of
                   Inl message \<Rightarrow> Inl message
                 | Inr r \<Rightarrow> Inr (Some r))))"

text \<open>
  The values both handlers bind for the template row. The handlers read them only after
  \<^verbatim>\<open>validateRequiredFields\<close> has found the title, the start time, the end time and
  the venue in the body. \<^verbatim>\<open>data.startTime.split('T')[1].substring(0, 8)\<close>, and the same
  of the end time, raise a \<open>TypeError\<close> on a text with no \<^verbatim>\<open>T\<close>.
\<close>

definition time_of :: "datetime \<Rightarrow> error + string" where
  "time_of t = (case dt_time t of None \<Rightarrow> Inl TypeError | Some text \<Rightarrow> Inr (take 8 text))"

definition bound_event :: "body \<Rightarrow> rrule option \<Rightarrow> error + event" where
  "bound_event data recurrenceRule =
     (case b_startTime data of
        None \<Rightarrow> Inl TypeError
      | Some startTime \<Rightarrow>
     (case time_of startTime of
        Inl e \<Rightarrow> Inl e
      | Inr start_time \<Rightarrow>
     (case (case b_endTime data of
              None \<Rightarrow> Inr (dt_date startTime, None)
            | Some endTime \<Rightarrow>
                (case time_of endTime of
                   Inl e \<Rightarrow> Inl e
                 | Inr end_time \<Rightarrow> Inr (dt_date endTime, Some end_time))) of
        Inl e \<Rightarrow> Inl e
      | Inr (end_date, end_time) \<Rightarrow>
          Inr \<lparr>e_id = 0,
               e_title = the (b_title data),
               e_description = (if truthy (b_description data) then b_description data else None),
               e_start_date = dt_date startTime,
               e_end_date = end_date,
               e_frequency = map_option r_frequency recurrenceRule,
               e_interval = map_option r_interval recurrenceRule,
               e_days_of_week = (case recurrenceRule of Some r \<Rightarrow> r_days_of_week r | None \<Rightarrow> None),
               e_start_time = Some start_time,
               e_end_time = end_time,
               e_location = b_venueId data\<rparr>)))"

text \<open>\<^verbatim>\<open>const instanceCount = recurrenceRule.count || 10\<close>, in both handlers.\<close>

definition instanceCount :: "rrule \<Rightarrow> nat" where
  "instanceCount recurrenceRule =
     (case r_count recurrenceRule of None \<Rightarrow> 10 | Some n \<Rightarrow> if n = 0 then 10 else n)"

section \<open>Responses\<close>

text \<open>
  \<open>Rejected status message\<close> is \<^verbatim>\<open>errorResponse(message, status)\<close> with a status below
  500; \<open>ServerError e\<close> is the status 500 with which a handler's outer \<^verbatim>\<open>catch\<close>
  reports the error \<open>e\<close> it caught; the others are the \<^verbatim>\<open>jsonResponse\<close> of the create,
  update and delete handlers.
\<close>

datatype response =
    Rejected nat string
  | ServerError error
  | Created "event option" "event_instance list"
  | Updated "event option" "event_instance list"
  | Success string string

section \<open>DELETE /api/events/:id\<close>

text \<open>
  The handler's \<^verbatim>\<open>catch\<close>: \<^verbatim>\<open>await db.prepare('ROLLBACK').run(); throw error\<close>, the
  outer \<^verbatim>\<open>catch\<close> answering 500. Where \<^verbatim>\<open>ROLLBACK\<close> itself raises, its error is the
  one reported.
\<close>

definition rollback_and_rethrow :: "error \<Rightarrow> store \<Rightarrow> response \<times> store" where
  "rollback_and_rethrow e s =
     (case ROLLBACK s of
        (Some e', s') \<Rightarrow> (ServerError e', s')
      | (None, s') \<Rightarrow> (ServerError e, s'))"

text \<open>\<^verbatim>\<open>SELECT * FROM Recurring_Events WHERE id = ?\<close>, \<^verbatim>\<open>.first()\<close>\<close>

definition select_event :: "nat \<Rightarrow> database \<Rightarrow> event option" where
  "select_event eventId d = find (\<lambda>e. e_id e = eventId) (Recurring_Events d)"

text \<open>\<^verbatim>\<open>url.searchParams.get('deleteScope') || 'all'\<close>: absent and empty both give \<^verbatim>\<open>'all'\<close>.\<close>

definition scope_or_all :: "string option \<Rightarrow> string" where
  "scope_or_all p = (case p of None \<Rightarrow> ''all'' | Some v \<Rightarrow> if v = [] then ''all'' else v)"

text \<open>The statements between \<^verbatim>\<open>BEGIN\<close> and \<^verbatim>\<open>COMMIT\<close>, by scope.\<close>

definition delete_statements :: "nat \<Rightarrow> string \<Rightarrow> date option \<Rightarrow> stmt list" where
  "delete_statements eventId deleteScope instanceDate =
     (if deleteScope = ''all'' then
        [exec (delete_instances_of eventId),
         exec (delete_exceptions_of eventId),
         exec (delete_recurring_event eventId)]
      else if deleteScope = ''thisAndFuture'' \<and> instanceDate \<noteq> None then
        [exec (cancel_from eventId (the instanceDate)),
         (\<lambda>s. run_all
                 (map (\<lambda>dt. exec (insert_exception_or_ignore eventId dt))
                      (future_dates eventId (the instanceDate) (db s))) s)]
      else if deleteScope = ''this'' \<and> instanceDate \<noteq> None then
        [exec (cancel_at eventId (the instanceDate)),
         exec (insert_exception_or_ignore eventId (the instanceDate))]
      else [])"

definition delete_event ::
  "nat \<Rightarrow> string option \<Rightarrow> date option \<Rightarrow> store \<Rightarrow> response \<times> store" where
  "delete_event eventId deleteScopeParam instanceDate s =
     (let deleteScope = scope_or_all deleteScopeParam in
      case select_event eventId (db s) of
        None \<Rightarrow> (Rejected 404 ''Event not found'', s)
      | Some existingEvent \<Rightarrow>
          (case run_all ([BEGIN] @ delete_statements eventId deleteScope instanceDate @ [COMMIT]) s of
             (Some e, s') \<Rightarrow> rollback_and_rethrow e s'
           | (None, s') \<Rightarrow>
               (Success (''Event '' @ (if deleteScope = ''all'' then ''deleted'' else ''cancelled'')
                           @ '' successfully'') deleteScope, s')))"

section \<open>PUT /api/events/:id\<close>

text \<open>
  \<^verbatim>\<open>generateInstances\<close> is not in the sources either; the handlers take it as the
  parameter \<open>gen\<close>. The regeneration step reads the template row back, asks \<open>gen\<close> for
  \<^verbatim>\<open>instanceCount\<close> instances and sends each through the upsert, skipping under
  \<^verbatim>\<open>thisAndFuture\<close> the instances dated before today. Were the row not there, the
  generator would be handed \<^verbatim>\<open>null\<close>; that is the \<open>TypeError\<close>.
\<close>

type_synonym generator = "event \<Rightarrow> rrule \<Rightarrow> nat \<Rightarrow> occurrence list"

definition regenerate :: "generator \<Rightarrow> date \<Rightarrow> nat \<Rightarrow> string \<Rightarrow> rrule \<Rightarrow> stmt" where
  "regenerate gen today eventId updateScope recurrenceRule s =
     (case select_event eventId (db s) of
        None \<Rightarrow> (Some TypeError, s)
      | Some updatedEvent \<Rightarrow>
          (let instances = gen updatedEvent recurrenceRule (instanceCount recurrenceRule) in
           run_all
             (map (\<lambda>instance. run (upsert_instance instance))
                  (filter (\<lambda>instance. \<not> (updateScope = ''thisAndFuture''
                                            \<and> i_instance_date instance < today))
                          instances)) s))"

text \<open>
  The statements between \<^verbatim>\<open>BEGIN\<close> and \<^verbatim>\<open>COMMIT\<close>. The values of the
  \<^verbatim>\<open>UPDATE\<close> are computed in its \<^verbatim>\<open>bind(...)\<close>, after \<^verbatim>\<open>BEGIN\<close> has run.
\<close>

definition update_statements ::
  "generator \<Rightarrow> date \<Rightarrow> nat \<Rightarrow> body \<Rightarrow> rrule option \<Rightarrow> string \<Rightarrow> stmt list" where
  "update_statements gen today eventId data recurrenceRule updateScope =
     [case bound_event data recurrenceRule of
        Inl e \<Rightarrow> throw e
      | Inr event \<Rightarrow> run (update_recurring_event eventId event)]
     @ (if updateScope = ''all'' then [exec (delete_non_modified eventId)]
        else if updateScope = ''thisAndFuture''
        then [exec (delete_future_non_modified eventId today)]
        else [])
     @ (case recurrenceRule of
          None \<Rightarrow> []
        | Some r \<Rightarrow> [regenerate gen today eventId updateScope r])"

text \<open>
  The handler. \<open>today\<close> is \<^verbatim>\<open>new Date().toISOString().split('T')[0]\<close>; a body of
  \<open>None\<close> is one that \<^verbatim>\<open>request.json()\<close> cannot read.
\<close>

definition put_event ::
  "(string \<Rightarrow> string + rrule) \<Rightarrow> generator \<Rightarrow> date \<Rightarrow> nat \<Rightarrow> body option \<Rightarrow> store
     \<Rightarrow> response \<times> store" where
  "put_event parse gen today eventId request s =
     (case request of
        None \<Rightarrow> (Rejected 400 ''Invalid JSON in request body'', s)
      | Some data \<Rightarrow>
     (case validateRequiredFields data of
        Some missingFields \<Rightarrow> (Rejected 400 missingFields, s)
      | None \<Rightarrow>
     (case select_event eventId (db s) of
        None \<Rightarrow> (Rejected 404 ''Event not found'', s)
      | Some existingEvent \<Rightarrow>
     (case parse_rule parse data of
        Inl message \<Rightarrow> (Rejected 400 (''Invalid recurrence rule: '' @ message), s)
      | Inr recurrenceRule \<Rightarrow>
     (let updateScope = scope_or_all (b_updateScope data) in
      case run_all ([BEGIN]
                    @ update_statements gen today eventId data recurrenceRule updateScope
                    @ [COMMIT]) s of
        (Some e, s') \<Rightarrow> rollback_and_rethrow e s'
      | (None, s') \<Rightarrow>
          (Updated (select_event eventId (db s')) (select_instances eventId (db s')), s'))))))"

section \<open>POST /api/events\<close>

text \<open>
  The handler computes the values of the template row, inserts the row with no
  \<^verbatim>\<open>BEGIN\<close> before it, reads the row back
  (\<^verbatim>\<open>WHERE id = last_insert_rowid()\<close>) and, for a rule, prepares the plain
  \<^verbatim>\<open>INSERT INTO Event_Instances\<close>. The source breaks off inside that statement; what
  follows it here is the loop that runs the statement for each generated instance, as the
  update handler has it, and the response the handler's header documents
  (\<^verbatim>\<open>@returns {Object} Created event and its instances\<close>). An error goes to the outer
  \<^verbatim>\<open>catch\<close>, as in the other handlers.
\<close>

definition last_inserted_event :: "database \<Rightarrow> event option" where
  "last_inserted_event d = select_event (seq_Recurring_Events d) d"

definition create_instances :: "generator \<Rightarrow> rrule option \<Rightarrow> stmt" where
  "create_instances gen recurrenceRule s =
     (case (recurrenceRule, last_inserted_event (db s)) of
        (Some r, Some newEventResult) \<Rightarrow>
          run_all (map (\<lambda>instance. run (insert_instance instance))
                       (gen newEventResult r (instanceCount r))) s
      | _ \<Rightarrow> (None, s))"

definition post_event ::
  "(string \<Rightarrow> string + rrule) \<Rightarrow> generator \<Rightarrow> body option \<Rightarrow> store \<Rightarrow> response \<times> store" where
  "post_event parse gen request s =
     (case request of
        None \<Rightarrow> (Rejected 400 ''Invalid JSON in request body'', s)
      | Some data \<Rightarrow>
     (case validateRequiredFields data of
        Some missingFields \<Rightarrow> (Rejected 400 missingFields, s)
      | None \<Rightarrow>
     (case parse_rule parse data of
        Inl message \<Rightarrow> (Rejected 400 (''Invalid recurrence rule: '' @ message), s)
      | Inr recurrenceRule \<Rightarrow>
     (case bound_event data recurrenceRule of
        Inl e \<Rightarrow> (ServerError e, s)
      | Inr event \<Rightarrow>
     (case run_all [run (insert_recurring_event event),
                    create_instances gen recurrenceRule] s of
        (Some e, s') \<Rightarrow> (ServerError e, s')
      | (None, s') \<Rightarrow>
          (Created (last_inserted_event (db s'))
                   (select_instances (seq_Recurring_Events (db s')) (db s')), s'))))))"

section \<open>The rule parser and the materializer\<close>

subsection \<open>Calendar arithmetic\<close>

text \<open>
  Day numbers and civil dates of the Gregorian calendar, for the month and year steps of
  the materializer and for the date of \<^verbatim>\<open>UNTIL\<close>. Years run from March, so that the
  leap day is the last day of the year.
\<close>

definition days_from_civil :: "nat \<Rightarrow> nat \<Rightarrow> nat \<Rightarrow> date" where
  "days_from_civil y m d =
     (let y' = (if m \<le> 2 then y - 1 else y);
          era = y' div 400;
          yoe = y' mod 400;
          mp = (if 2 < m then m - 3 else m + 9);
          doy = (153 * mp + 2) div 5 + d - 1;
          doe = yoe * 365 + yoe div 4 - yoe div 100 + doy
      in era * 146097 + doe - 719468)"

definition civil_from_days :: "date \<Rightarrow> nat \<times> nat \<times> nat" where
  "civil_from_days z =
     (let z' = z + 719468;
          era = z' div 146097;
          doe = z' mod 146097;
          yoe = (doe - doe div 1460 + doe div 36524 - doe div 146096) div 365;
          doy = doe - (365 * yoe + yoe div 4 - yoe div 100);
          mp = (5 * doy + 2) div 153;
          d = doy - (153 * mp + 2) div 5 + 1;
          m = (if mp < 10 then mp + 3 else mp - 9)
      in (if m \<le> 2 then yoe + era * 400 + 1 else yoe + era * 400, m, d))"

definition leap_year :: "nat \<Rightarrow> bool" where
  "leap_year y \<longleftrightarrow> y mod 4 = 0 \<and> (y mod 100 \<noteq> 0 \<or> y mod 400 = 0)"

definition days_in_month :: "nat \<Rightarrow> nat \<Rightarrow> nat" where
  "days_in_month y m =
     (if m = 2 then (if leap_year y then 29 else 28)
      else if m = 4 \<or> m = 6 \<or> m = 9 \<or> m = 11 then 30 else 31)"

text \<open>The weekday of a day number; 1970-01-01 was a Thursday.\<close>

definition weekday_index :: "weekday \<Rightarrow> nat" where
  "weekday_index w =
     (case w of MO \<Rightarrow> 0 | TU \<Rightarrow> 1 | WE \<Rightarrow> 2 | TH \<Rightarrow> 3 | FR \<Rightarrow> 4 | SA \<Rightarrow> 5 | SU \<Rightarrow> 6)"

definition weekday_of :: "date \<Rightarrow> nat" where
  "weekday_of z = (z + 3) mod 7"

subsection \<open>The materializer\<close>

text \<open>
  Modelled from the spec: \<^verbatim>\<open>generateInstances(event, recurrenceRule, instanceCount)\<close>,
  which both handlers call and the sources do not define. The spec's materializer starts
  at the anchor's date and steps forward by \<open>interval\<close> units of the frequency; for a
  weekly rule with \<^verbatim>\<open>BYDAY\<close> it enumerates the qualifying weekdays of every
  \<open>interval\<close>-th week; monthly and yearly steps keep the anchor's day of the month (and
  month) and skip a date that does not exist. It stops once the count is produced or the
  \<^verbatim>\<open>UNTIL\<close> date is exceeded.

  \<open>candidate\<close> is the \<open>i\<close>-th date the rule steps to, \<open>None\<close> where that date is
  skipped. Weeks run from Monday, and a \<^verbatim>\<open>BYDAY\<close> rule steps day by day from the
  anchor.
\<close>

definition candidate :: "rrule \<Rightarrow> date \<Rightarrow> nat \<Rightarrow> date option" where
  "candidate r start i =
     (case r_frequency r of
        daily \<Rightarrow> Some (start + i * r_interval r)
      | weekly \<Rightarrow>
          (case r_days_of_week r of
             None \<Rightarrow> Some (start + i * (7 * r_interval r))
           | Some days \<Rightarrow>
               (if weekday_of (start + i) \<in> weekday_index ` set days
                   \<and> r_interval r dvd (weekday_of start + i) div 7
                then Some (start + i) else None))
      | monthly \<Rightarrow>
          (case civil_from_days start of (y, m, d) \<Rightarrow>
             (let months = y * 12 + (m - 1) + i * r_interval r;
                  y' = months div 12;
                  m' = months mod 12 + 1
              in if d \<le> days_in_month y' m' then Some (days_from_civil y' m' d) else None))
      | yearly \<Rightarrow>
          (case civil_from_days start of (y, m, d) \<Rightarrow>
             (let y' = y + i * r_interval r
              in if d \<le> days_in_month y' m then Some (days_from_civil y' m d) else None)))"

text \<open>
  The first candidate at or after index \<open>i\<close> that is not skipped, among the next \<open>span\<close>
  ones. The pattern of skipped dates repeats after 400 years, which are 4800 months.
\<close>

fun next_candidate :: "nat \<Rightarrow> (nat \<Rightarrow> date option) \<Rightarrow> nat \<Rightarrow> (nat \<times> date) option" where
  "next_candidate 0 cand i = None"
| "next_candidate (Suc span) cand i =
     (case cand i of
        Some d \<Rightarrow> Some (i, d)
      | None \<Rightarrow> next_candidate span cand (Suc i))"

definition search_span :: "rrule \<Rightarrow> nat" where
  "search_span r =
     (case r_frequency r of
        daily \<Rightarrow> 1
      | weekly \<Rightarrow> (case r_days_of_week r of None \<Rightarrow> 1 | Some days \<Rightarrow> 7 * max 1 (r_interval r))
      | monthly \<Rightarrow> 4800
      | yearly \<Rightarrow> 400)"

fun occurrence_dates ::
  "nat \<Rightarrow> nat \<Rightarrow> (nat \<Rightarrow> date option) \<Rightarrow> date option \<Rightarrow> nat \<Rightarrow> date list" where
  "occurrence_dates span 0 cand until i = []"
| "occurrence_dates span (Suc n) cand until i =
     (case next_candidate span cand i of
        None \<Rightarrow> []
      | Some (j, d) \<Rightarrow>
          (if (case until of Some u \<Rightarrow> u < d | None \<Rightarrow> False) then []
           else d # occurrence_dates span n cand until (Suc j)))"

text \<open>
  Every occurrence carries the template's identifier, times, title, description and
  location and is not cancelled.
\<close>

definition occurrence_of :: "event \<Rightarrow> date \<Rightarrow> occurrence" where
  "occurrence_of ev d =
     \<lparr>i_recurring_event_id = e_id ev, i_instance_date = d,
      i_start_time = e_start_time ev, i_end_time = e_end_time ev, i_title = e_title ev,
      i_description = e_description ev, i_location = e_location ev,
      i_is_cancelled = False\<rparr>"

definition generateInstances :: generator where
  "generateInstances ev r n =
     map (occurrence_of ev)
       (occurrence_dates (search_span r) n (candidate r (e_start_date ev)) (r_until r) 0)"

subsection \<open>The rule parser\<close>

text \<open>
  Modelled from the spec: \<^verbatim>\<open>parseRRule(ruleText)\<close> of the server, which the sources do
  not define. The text is a list of \<^verbatim>\<open>KEY=value\<close> parts separated by semicolons.
  \<^verbatim>\<open>FREQ\<close> is required and is one of \<^verbatim>\<open>DAILY, WEEKLY, MONTHLY, YEARLY\<close>;
  \<^verbatim>\<open>INTERVAL\<close> and \<^verbatim>\<open>COUNT\<close> are positive integers, the interval 1 by default;
  \<^verbatim>\<open>UNTIL\<close> is an ISO date; \<^verbatim>\<open>COUNT\<close> and \<^verbatim>\<open>UNTIL\<close> exclude each other;
  \<^verbatim>\<open>BYDAY\<close> is a comma-separated list of \<^verbatim>\<open>MO, TU, WE, TH, FR, SA, SU\<close>. Any
  other text fails with \<^verbatim>\<open>InvalidRule\<close>.
\<close>

fun split_on :: "char \<Rightarrow> string \<Rightarrow> string list" where
  "split_on c [] = [[]]"
| "split_on c (x # xs) =
     (if x = c then [] # split_on c xs
      else (case split_on c xs of [] \<Rightarrow> [[x]] | p # ps \<Rightarrow> (x # p) # ps))"

definition digit_value :: "char \<Rightarrow> nat option" where
  "digit_value c =
     (let v = (of_char c :: nat) in if 48 \<le> v \<and> v \<le> 57 then Some (v - 48) else None)"

fun digits_value :: "nat \<Rightarrow> string \<Rightarrow> nat option" where
  "digits_value acc [] = Some acc"
| "digits_value acc (c # cs) =
     (case digit_value c of None \<Rightarrow> None | Some v \<Rightarrow> digits_value (10 * acc + v) cs)"

definition parse_nat :: "string \<Rightarrow> nat option" where
  "parse_nat t = (if t = [] then None else digits_value 0 t)"

definition parse_positive :: "string \<Rightarrow> nat option" where
  "parse_positive t = (case parse_nat t of Some n \<Rightarrow> if 0 < n then Some n else None | None \<Rightarrow> None)"

definition parse_freq :: "string \<Rightarrow> freq option" where
  "parse_freq t =
     (if t = ''DAILY'' then Some daily else if t = ''WEEKLY'' then Some weekly
      else if t = ''MONTHLY'' then Some monthly else if t = ''YEARLY'' then Some yearly
      else None)"

definition parse_weekday :: "string \<Rightarrow> weekday option" where
  "parse_weekday t =
     (if t = ''MO'' then Some MO else if t = ''TU'' then Some TU
      else if t = ''WE'' then Some WE else if t = ''TH'' then Some TH
      else if t = ''FR'' then Some FR else if t = ''SA'' then Some SA
      else if t = ''SU'' then Some SU else None)"

fun parse_weekdays :: "string list \<Rightarrow> weekday list option" where
  "parse_weekdays [] = Some []"
| "parse_weekdays (t # ts) =
     (case (parse_weekday t, parse_weekdays ts) of
        (Some w, Some ws) \<Rightarrow> Some (w # ws)
      | _ \<Rightarrow> None)"

text \<open>An ISO date \<^verbatim>\<open>YYYY-MM-DD\<close>, of a day that exists, from 1970 on.\<close>

definition parse_date :: "string \<Rightarrow> date option" where
  "parse_date t =
     (case split_on CHR ''-'' t of
        [ys, ms, ds] \<Rightarrow>
          (case (parse_nat ys, parse_nat ms, parse_nat ds) of
             (Some y, Some m, Some d) \<Rightarrow>
               (if length ys = 4 \<and> length ms = 2 \<and> length ds = 2 \<and> 1970 \<le> y
                   \<and> 1 \<le> m \<and> m \<le> 12 \<and> 1 \<le> d \<and> d \<le> days_in_month y m
                then Some (days_from_civil y m d) else None)
           | _ \<Rightarrow> None)
      | _ \<Rightarrow> None)"

text \<open>The value of the first part \<^verbatim>\<open>KEY=value\<close> with the given key.\<close>

fun rule_part :: "string \<Rightarrow> string list \<Rightarrow> string option" where
  "rule_part key [] = None"
| "rule_part key (p # ps) =
     (if take (Suc (length key)) p = key @ ''='' then Some (drop (Suc (length key)) p)
      else rule_part key ps)"

definition optional_part :: "(string \<Rightarrow> 'a option) \<Rightarrow> string option \<Rightarrow> 'a option option" where
  "optional_part f v =
     (case v of
        None \<Rightarrow> Some None
      | Some t \<Rightarrow> (case f t of None \<Rightarrow> None | Some a \<Rightarrow> Some (Some a)))"

definition parseRRule :: "string \<Rightarrow> string + rrule" where
  "parseRRule ruleText =
     (let parts = split_on CHR '';'' ruleText in
      case (case rule_part ''FREQ'' parts of None \<Rightarrow> None | Some t \<Rightarrow> parse_freq t,
            optional_part parse_positive (rule_part ''INTERVAL'' parts),
            optional_part parse_positive (rule_part ''COUNT'' parts),
            optional_part parse_date (rule_part ''UNTIL'' parts),
            optional_part (\<lambda>t. parse_weekdays (split_on CHR '','' t)) (rule_part ''BYDAY'' parts)) of
        (Some f, Some i, Some c, Some u, Some days) \<Rightarrow>
          (if c \<noteq> None \<and> u \<noteq> None then Inl ''InvalidRule''
           else Inr \<lparr>r_frequency = f, r_interval = (case i of None \<Rightarrow> 1 | Some k \<Rightarrow> k),
                     r_days_of_week = days, r_count = c, r_until = u\<rparr>)
      | _ \<Rightarrow> Inl ''InvalidRule'')"

section \<open>Reading and restoring instances\<close>








section \<open>The values of a row\<close>

text \<open>The values of a stored row, without its identifier.\<close>

definition row_values :: "event_instance \<Rightarrow> occurrence" where
  "row_values r =
     \<lparr>i_recurring_event_id = i_recurring_event_id r, i_instance_date = i_instance_date r,
      i_start_time = i_start_time r, i_end_time = i_end_time r, i_title = i_title r,
      i_description = i_description r, i_location = i_location r,
      i_is_cancelled = i_is_cancelled r\<rparr>"

section \<open>A sample series\<close>

text \<open>
  The request the repository's tests create a series with: a weekly event of four
  occurrences from 2025-04-01 (day 20179), and the store that creating it on empty tables
  leaves.
\<close>

definition sample_body :: body where
  "sample_body =
     \<lparr>b_title = Some ''Test Recurring Event'', b_description = Some ''Test Description'',
      b_startTime = Some \<lparr>dt_date = 20179, dt_time = Some ''10:00:00Z''\<rparr>,
      b_endTime = Some \<lparr>dt_date = 20179, dt_time = Some ''11:00:00Z''\<rparr>,
      b_venueId = Some ''1'', b_recurrenceRule = Some ''FREQ=WEEKLY;COUNT=4'',
      b_updateScope = None\<rparr>"

definition weekly_rule :: "nat option \<Rightarrow> rrule" where
  "weekly_rule c =
     \<lparr>r_frequency = weekly, r_interval = 1, r_days_of_week = None, r_count = c,
      r_until = None\<rparr>"

definition sample_event :: event where
  "sample_event =
     \<lparr>e_id = 1, e_title = ''Test Recurring Event'', e_description = Some ''Test Description'',
      e_start_date = 20179, e_end_date = 20179, e_frequency = Some weekly,
      e_interval = Some 1, e_days_of_week = None, e_start_time = Some ''10:00:00'',
      e_end_time = Some ''11:00:00'', e_location = Some ''1''\<rparr>"

definition sample_instance :: "nat \<Rightarrow> date \<Rightarrow> event_instance" where
  "sample_instance n dt = stored n (occurrence_of sample_event dt)"

definition sample_database :: database where
  "sample_database =
     \<lparr>Recurring_Events = [sample_event],
      Event_Instances =
        [sample_instance 1 20179, sample_instance 2 20186, sample_instance 3 20193,
         sample_instance 4 20200],
      Event_Exceptions = [],
      seq_Recurring_Events = 1, seq_Event_Instances = 4, seq_Event_Exceptions = 0,
      unique_pair = False\<rparr>"

text \<open>The same rows in a table that has the unique index on the pair.\<close>

definition keyed :: "database \<Rightarrow> database" where
  "keyed d = d\<lparr>unique_pair := True\<rparr>"

definition idle :: "database \<Rightarrow> store" where
  "idle d = \<lparr>db = d, txn = None, fault = None\<rparr>"

text \<open>An update of the sample series from today on, with a new title.\<close>

definition future_request :: body where
  "future_request =
     sample_body\<lparr>b_title := Some ''New'', b_updateScope := Some ''thisAndFuture''\<rparr>"

section \<open>Properties\<close>

subsection \<open>The gateway\<close>

text \<open>
  On a store with no fault pending a statement is its effect on the tables. A statement
  leaves the transaction as it found it, so that a transaction that fails, at whichever
  statement and for whatever reason, is rolled back to the tables as they were at
  \<^verbatim>\<open>BEGIN\<close>.
\<close>

lemma tick_healthy: "fault s = None \<Longrightarrow> tick s = s"
  by (simp add: tick_def)

lemma exec_healthy: "fault s = None \<Longrightarrow> exec f s = (None, s\<lparr>db := f (db s)\<rparr>)"
  by (simp add: exec_def run_def tick_healthy)

lemma run_healthy:
  "fault s = None \<Longrightarrow>
   run q s = (case q (db s) of Inl e \<Rightarrow> (Some e, s) | Inr d \<Rightarrow> (None, s\<lparr>db := d\<rparr>))"
  by (simp add: run_def tick_healthy split: sum.split)

lemma run_all_append:
  "run_all (ps @ qs) s =
     (case run_all ps s of (Some e, s') \<Rightarrow> (Some e, s') | (None, s') \<Rightarrow> run_all qs s')"
  by (induction ps arbitrary: s) (auto split: prod.split option.split)

lemma BEGIN_healthy:
  "fault s = None \<Longrightarrow> txn s = None \<Longrightarrow> BEGIN s = (None, s\<lparr>txn := Some (db s)\<rparr>)"
  by (simp add: BEGIN_def tick_healthy)

lemma COMMIT_healthy:
  "fault s = None \<Longrightarrow> txn s = Some d \<Longrightarrow> COMMIT s = (None, s\<lparr>txn := None\<rparr>)"
  by (simp add: COMMIT_def tick_healthy)

lemma txn_run: "txn (snd (run q s)) = txn s"
  by (simp add: run_def tick_def split: sum.split)

lemma txn_exec: "txn (snd (exec f s)) = txn s"
  by (simp add: exec_def txn_run)

lemma txn_run_all:
  "(\<And>q s. q \<in> set qs \<Longrightarrow> txn (snd (q s)) = txn s) \<Longrightarrow> txn (snd (run_all qs s)) = txn s"
proof (induction qs arbitrary: s)
  case Nil
  show ?case by simp
next
  case (Cons q qs)
  have q: "txn (snd (q s)) = txn s"
    using Cons.prems by simp
  show ?case
  proof (cases "q s")
    case (Pair r s')
    then show ?thesis
      using q Cons.IH [of s'] Cons.prems by (cases r) auto
  qed
qed

lemma transaction_rolls_back:
  assumes "txn s = None" and "\<And>q s. q \<in> set qs \<Longrightarrow> txn (snd (q s)) = txn s"
    and "run_all ([BEGIN] @ qs @ [COMMIT]) s = (Some e, s')"
  shows "db (snd (rollback_and_rethrow e s')) = db s \<and> txn (snd (rollback_and_rethrow e s')) = None"
proof (cases "fault s = Some 0")
  case True
  then have "s' = s\<lparr>fault := None\<rparr>"
    using assms(3) by (simp add: BEGIN_def)
  then show ?thesis
    using assms(1) by (simp add: rollback_and_rethrow_def ROLLBACK_def)
next
  case False
  define s0 where "s0 = (tick s)\<lparr>txn := Some (db s)\<rparr>"
  have b: "BEGIN s = (None, s0)"
    using False assms(1) by (simp add: BEGIN_def s0_def)
  obtain r1 s1 where r: "run_all qs s0 = (r1, s1)"
    by (cases "run_all qs s0")
  have t1: "txn s1 = Some (db s)"
    using txn_run_all [of qs s0] assms(2) r by (simp add: s0_def tick_def)
  have "txn s' = Some (db s)"
  proof (cases r1)
    case (Some e1)
    then show ?thesis
      using assms(3) b r t1 by (simp add: run_all_append)
  next
    case None
    then have "COMMIT s1 = (Some e, s')"
      using assms(3) b r by (auto simp: run_all_append split: prod.splits option.splits)
    then show ?thesis
      using t1 by (auto simp: COMMIT_def tick_def split: if_splits)
  qed
  then show ?thesis
    by (simp add: rollback_and_rethrow_def ROLLBACK_def)
qed

lemma throw_txn: "txn (snd (throw e s)) = txn s"
  by (simp add: throw_def)

lemma run_all_run:
  assumes "fault s = None" and "\<And>v d. v \<in> set vs \<Longrightarrow> P d \<Longrightarrow> q v d = Inr (f v d) \<and> P (f v d)"
    and "P (db s)"
  shows "run_all (map (\<lambda>v. run (q v)) vs) s = (None, s\<lparr>db := fold f vs (db s)\<rparr>)"
  using assms
proof (induction vs arbitrary: s)
  case Nil
  show ?case by simp
next
  case (Cons v vs)
  have q: "q v (db s) = Inr (f v (db s))" and p: "P (f v (db s))"
    using Cons.prems(2) [of v "db s"] Cons.prems(3) by simp_all
  have "run_all (map (\<lambda>v. run (q v)) vs) (s\<lparr>db := f v (db s)\<rparr>)
          = (None, s\<lparr>db := f v (db s)\<rparr>\<lparr>db := fold f vs (db (s\<lparr>db := f v (db s)\<rparr>))\<rparr>)"
    using Cons.prems p by (intro Cons.IH) simp_all
  then show ?case
    using Cons.prems(1) q by (simp add: run_healthy)
qed

lemma run_all_refused:
  assumes "fault s = None" and "vs \<noteq> []" and "\<And>v. q v (db s) = Inl e"
  shows "run_all (map (\<lambda>v. run (q v)) vs) s = (Some e, s)"
  using assms by (cases vs) (simp_all add: run_healthy)

subsection \<open>Lists\<close>






subsection \<open>The statements on the instance table\<close>

text \<open>
  On the table as declared every plain insert is accepted and every upsert refused; on a
  table with the unique pair every upsert is accepted.
\<close>

lemma upsert_row_other:
  "Recurring_Events (upsert_row v d) = Recurring_Events d"
  "Event_Exceptions (upsert_row v d) = Event_Exceptions d"
  "unique_pair (upsert_row v d) = unique_pair d"
  by (simp_all add: upsert_row_def insert_row_def)

lemma fold_upsert_row_other:
  "Recurring_Events (fold upsert_row vs d) = Recurring_Events d"
  "Event_Exceptions (fold upsert_row vs d) = Event_Exceptions d"
  "unique_pair (fold upsert_row vs d) = unique_pair d"
  by (induction vs arbitrary: d) (simp_all add: upsert_row_other)

lemma insert_row_other:
  "Recurring_Events (insert_row v d) = Recurring_Events d"
  "Event_Exceptions (insert_row v d) = Event_Exceptions d"
  "seq_Recurring_Events (insert_row v d) = seq_Recurring_Events d"
  "unique_pair (insert_row v d) = unique_pair d"
  by (simp_all add: insert_row_def)

lemma fold_insert_row_other:
  "Recurring_Events (fold insert_row vs d) = Recurring_Events d"
  "Event_Exceptions (fold insert_row vs d) = Event_Exceptions d"
  "seq_Recurring_Events (fold insert_row vs d) = seq_Recurring_Events d"
  "unique_pair (fold insert_row vs d) = unique_pair d"
  by (induction vs arbitrary: d) (simp_all add: insert_row_other)

lemma upserts_keyed:
  assumes "fault s = None" and "unique_pair (db s)"
  shows "run_all (map (\<lambda>v. run (upsert_instance v)) vs) s
           = (None, s\<lparr>db := fold upsert_row vs (db s)\<rparr>)"
  by (rule run_all_run [where P = unique_pair])
    (use assms in \<open>simp_all add: upsert_instance_def upsert_row_other\<close>)

lemma upserts_refused:
  assumes "fault s = None" and "\<not> unique_pair (db s)" and "vs \<noteq> []"
  shows "run_all (map (\<lambda>v. run (upsert_instance v)) vs) s = (Some ConflictTargetMismatch, s)"
  by (rule run_all_refused) (use assms in \<open>simp_all add: upsert_instance_def\<close>)

lemma inserts_plain:
  assumes "fault s = None" and "\<not> unique_pair (db s)"
  shows "run_all (map (\<lambda>v. run (insert_instance v)) vs) s
           = (None, s\<lparr>db := fold insert_row vs (db s)\<rparr>)"
  by (rule run_all_run [where P = "\<lambda>d. \<not> unique_pair d"])
    (use assms in \<open>simp_all add: insert_instance_def insert_row_other\<close>)

lemma fold_insert_row_rows:
  "map row_values (Event_Instances (fold insert_row vs d))
     = map row_values (Event_Instances d) @ vs
   \<and> take (length (Event_Instances d)) (Event_Instances (fold insert_row vs d))
       = Event_Instances d"
proof (induction vs arbitrary: d)
  case Nil
  show ?case by simp
next
  case (Cons v vs)
  have i: "Event_Instances (insert_row v d)
             = Event_Instances d @ [stored (Suc (seq_Event_Instances d)) v]"
    by (simp add: insert_row_def)
  have "take (length (Event_Instances d)) (Event_Instances (fold insert_row vs (insert_row v d)))
          = take (length (Event_Instances d))
              (take (length (Event_Instances (insert_row v d)))
                 (Event_Instances (fold insert_row vs (insert_row v d))))"
    by (simp add: i min_def)
  also have "\<dots> = take (length (Event_Instances d)) (Event_Instances (insert_row v d))"
    using Cons.IH [of "insert_row v d"] by simp
  also have "\<dots> = Event_Instances d"
    by (simp add: i)
  finally show ?case
    using Cons.IH [of "insert_row v d"] by (simp add: i row_values_def stored_def)
qed

subsection \<open>The handlers\<close>

text \<open>
  What the create, update, delete and restore handlers do on a healthy store, and that the
  update and delete handlers leave the tables as they were whenever they answer 500.
\<close>

lemma select_after_update:
  "find (\<lambda>e. e_id e = k) (map (\<lambda>e. if e_id e = k then v\<lparr>e_id := e_id e\<rparr> else e) xs)
     = (case find (\<lambda>e. e_id e = k) xs of None \<Rightarrow> None | Some e \<Rightarrow> Some (v\<lparr>e_id := k\<rparr>))"
  by (induction xs) auto

lemma bound_event_frequency:
  "bound_event data (Some r) = Inr ev \<Longrightarrow> e_frequency ev = Some (r_frequency r)"
  by (auto simp: bound_event_def split: option.splits sum.splits prod.splits)

lemma update_prefix:
  fixes s :: store and eventId today :: nat and gen :: generator and data :: body
    and r :: rrule and scope :: string and ev :: event
  assumes "fault s = None" and "txn s = None"
    and "select_event eventId (db s) = Some existing"
    and "bound_event data (Some r) = Inr ev"
  defines "d1 \<equiv> (db s)\<lparr>Recurring_Events :=
                    map (\<lambda>e. if e_id e = eventId then ev\<lparr>e_id := e_id e\<rparr> else e)
                      (Recurring_Events (db s))\<rparr>"
  defines "d2 \<equiv> (if scope = ''all'' then delete_non_modified eventId d1
                 else if scope = ''thisAndFuture'' then delete_future_non_modified eventId today d1
                 else d1)"
  shows "run_all ([BEGIN] @ update_statements gen today eventId data (Some r) scope @ [COMMIT]) s
           = (case run_all
                    (map (\<lambda>instance. run (upsert_instance instance))
                       (filter (\<lambda>i. \<not> (scope = ''thisAndFuture'' \<and> i_instance_date i < today))
                          (gen (ev\<lparr>e_id := eventId\<rparr>) r (instanceCount r))))
                    (s\<lparr>txn := Some (db s), db := d2\<rparr>) of
                (Some e, s') \<Rightarrow> (Some e, s')
              | (None, s') \<Rightarrow> COMMIT s')"
proof -
  let ?s0 = "s\<lparr>txn := Some (db s)\<rparr>"
  have f: "e_frequency ev \<noteq> None"
    using bound_event_frequency [OF assms(4)] by simp
  have u: "run (update_recurring_event eventId ev) ?s0 = (None, ?s0\<lparr>db := d1\<rparr>)"
    using assms(1) f by (simp add: run_healthy update_recurring_event_def d1_def)
  have e1: "select_event eventId d1 = Some (ev\<lparr>e_id := eventId\<rparr>)"
    using assms(3) by (simp add: select_event_def d1_def select_after_update)
  have e2: "select_event eventId d2 = Some (ev\<lparr>e_id := eventId\<rparr>)"
    using e1 by (simp add: d2_def select_event_def delete_non_modified_def delete_future_non_modified_def)
  have del: "run_all (if scope = ''all'' then [exec (delete_non_modified eventId)]
        else if scope = ''thisAndFuture'' then [exec (delete_future_non_modified eventId today)] else [])
        (?s0\<lparr>db := d1\<rparr>) = (None, ?s0\<lparr>db := d2\<rparr>)"
    using assms(1) by (simp add: exec_healthy d2_def)
  have reg: "regenerate gen today eventId scope r (?s0\<lparr>db := d2\<rparr>)
        = run_all
            (map (\<lambda>instance. run (upsert_instance instance))
               (filter (\<lambda>i. \<not> (scope = ''thisAndFuture'' \<and> i_instance_date i < today))
                  (gen (ev\<lparr>e_id := eventId\<rparr>) r (instanceCount r))))
            (?s0\<lparr>db := d2\<rparr>)"
    using e2 by (simp add: regenerate_def)
  show ?thesis
    using assms(1) assms(2) assms(4) u del
    by (simp add: update_statements_def run_all_append BEGIN_healthy reg
        split: prod.split option.split)
qed

lemma put_event_keyed:
  fixes s :: store and eventId today :: nat and gen :: generator and data :: body
    and r :: rrule and ev :: event
  assumes "fault s = None" and "txn s = None" and "validateRequiredFields data = None"
    and "select_event eventId (db s) = Some existing" and "parse_rule parse data = Inr (Some r)"
    and "bound_event data (Some r) = Inr ev" and "unique_pair (db s)"
  defines "scope \<equiv> scope_or_all (b_updateScope data)"
  defines "d1 \<equiv> (db s)\<lparr>Recurring_Events :=
                    map (\<lambda>e. if e_id e = eventId then ev\<lparr>e_id := e_id e\<rparr> else e)
                      (Recurring_Events (db s))\<rparr>"
  defines "d2 \<equiv> (if scope = ''all'' then delete_non_modified eventId d1
                 else if scope = ''thisAndFuture'' then delete_future_non_modified eventId today d1
                 else d1)"
  defines "d3 \<equiv> fold upsert_row
                  (filter (\<lambda>i. \<not> (scope = ''thisAndFuture'' \<and> i_instance_date i < today))
                     (gen (ev\<lparr>e_id := eventId\<rparr>) r (instanceCount r))) d2"
  shows "put_event parse gen today eventId (Some data) s
           = (Updated (select_event eventId d3) (select_instances eventId d3), s\<lparr>db := d3\<rparr>)"
proof -
  let ?s2 = "s\<lparr>txn := Some (db s), db := d2\<rparr>"
  have k: "unique_pair (db ?s2)"
    using assms(7)
    by (simp add: d2_def d1_def delete_non_modified_def delete_future_non_modified_def)
  have up: "run_all
        (map (\<lambda>instance. run (upsert_instance instance))
           (filter (\<lambda>i. \<not> (scope = ''thisAndFuture'' \<and> i_instance_date i < today))
              (gen (ev\<lparr>e_id := eventId\<rparr>) r (instanceCount r)))) ?s2
        = (None, ?s2\<lparr>db := d3\<rparr>)"
    using upserts_keyed [of ?s2, OF _ k] assms(1) by (simp add: d3_def)
  have com: "COMMIT (s\<lparr>txn := Some (db s), db := d3\<rparr>) = (None, s\<lparr>db := d3\<rparr>)"
    using COMMIT_healthy [of "s\<lparr>txn := Some (db s), db := d3\<rparr>" "db s"] assms(1) assms(2) by simp
  have body: "run_all ([BEGIN] @ update_statements gen today eventId data (Some r) scope @ [COMMIT]) s
                = (None, s\<lparr>db := d3\<rparr>)"
    unfolding update_prefix [OF assms(1) assms(2) assms(4) assms(6)]
    unfolding d1_def [symmetric] d2_def [symmetric] up
    by (simp add: com)
  show ?thesis
    using assms(3) assms(4) assms(5) body by (simp add: put_event_def scope_def)
qed

lemma update_refused_inside:
  fixes s :: store and eventId today :: nat and gen :: generator and data :: body
    and r :: rrule and scope :: string and ev :: event
  assumes "fault s = None" and "txn s = None"
    and "select_event eventId (db s) = Some existing"
    and "bound_event data (Some r) = Inr ev" and "\<not> unique_pair (db s)"
    and "filter (\<lambda>i. \<not> (scope = ''thisAndFuture'' \<and> i_instance_date i < today))
           (gen (ev\<lparr>e_id := eventId\<rparr>) r (instanceCount r)) \<noteq> []"
  defines "d1 \<equiv> (db s)\<lparr>Recurring_Events :=
                    map (\<lambda>e. if e_id e = eventId then ev\<lparr>e_id := e_id e\<rparr> else e)
                      (Recurring_Events (db s))\<rparr>"
  defines "d2 \<equiv> (if scope = ''all'' then delete_non_modified eventId d1
                 else if scope = ''thisAndFuture'' then delete_future_non_modified eventId today d1
                 else d1)"
  shows "run_all ([BEGIN] @ update_statements gen today eventId data (Some r) scope @ [COMMIT]) s
           = (Some ConflictTargetMismatch, s\<lparr>txn := Some (db s), db := d2\<rparr>)"
proof -
  let ?s2 = "s\<lparr>txn := Some (db s), db := d2\<rparr>"
  have k: "\<not> unique_pair (db ?s2)"
    using assms(5)
    by (simp add: d2_def d1_def delete_non_modified_def delete_future_non_modified_def)
  have up: "run_all
        (map (\<lambda>instance. run (upsert_instance instance))
           (filter (\<lambda>i. \<not> (scope = ''thisAndFuture'' \<and> i_instance_date i < today))
              (gen (ev\<lparr>e_id := eventId\<rparr>) r (instanceCount r)))) ?s2
        = (Some ConflictTargetMismatch, ?s2)"
    using upserts_refused [of ?s2, OF _ k assms(6)] assms(1) by simp
  show ?thesis
    unfolding update_prefix [OF assms(1) assms(2) assms(3) assms(4)]
    unfolding d1_def [symmetric] d2_def [symmetric] up
    by simp
qed

lemma put_event_refused:
  fixes s :: store and eventId today :: nat and gen :: generator and data :: body
    and r :: rrule and ev :: event
  assumes "fault s = None" and "txn s = None" and "validateRequiredFields data = None"
    and "select_event eventId (db s) = Some existing" and "parse_rule parse data = Inr (Some r)"
    and "bound_event data (Some r) = Inr ev" and "\<not> unique_pair (db s)"
    and "filter (\<lambda>i. \<not> (scope_or_all (b_updateScope data) = ''thisAndFuture''
                          \<and> i_instance_date i < today))
           (gen (ev\<lparr>e_id := eventId\<rparr>) r (instanceCount r)) \<noteq> []"
  shows "put_event parse gen today eventId (Some data) s = (ServerError ConflictTargetMismatch, s)"
proof -
  have same: "s\<lparr>txn := None, db := db s\<rparr> = s"
    using assms(2) by (cases s) simp
  note inside = update_refused_inside [where gen = gen and today = today
      and scope = "scope_or_all (b_updateScope data)",
      OF assms(1) assms(2) assms(4) assms(6) assms(7) assms(8)]
  show ?thesis
    using assms(3) assms(4) assms(5) same inside
    by (simp add: put_event_def rollback_and_rethrow_def ROLLBACK_def)
qed

lemma find_append:
  "find P (xs @ ys) = (case find P xs of None \<Rightarrow> find P ys | Some x \<Rightarrow> Some x)"
  by (induction xs) simp_all

lemma last_inserted_new:
  assumes "\<forall>e \<in> set (Recurring_Events d). e_id e \<le> seq_Recurring_Events d"
  shows "last_inserted_event
           (d\<lparr>Recurring_Events := Recurring_Events d @ [ev\<lparr>e_id := Suc (seq_Recurring_Events d)\<rparr>],
              seq_Recurring_Events := Suc (seq_Recurring_Events d)\<rparr>)
         = Some (ev\<lparr>e_id := Suc (seq_Recurring_Events d)\<rparr>)"
proof -
  have "find (\<lambda>e. e_id e = Suc (seq_Recurring_Events d)) (Recurring_Events d) = None"
    using assms by (auto simp: find_None_iff)
  then show ?thesis
    by (simp add: last_inserted_event_def select_event_def find_append)
qed

lemma post_event_plain:
  fixes s :: store and gen :: generator and data :: body and r :: rrule and ev :: event
  assumes "fault s = None" and "validateRequiredFields data = None"
    and "parse_rule parse data = Inr (Some r)" and "bound_event data (Some r) = Inr ev"
    and "\<not> unique_pair (db s)"
    and "\<forall>e \<in> set (Recurring_Events (db s)). e_id e \<le> seq_Recurring_Events (db s)"
  defines "new \<equiv> ev\<lparr>e_id := Suc (seq_Recurring_Events (db s))\<rparr>"
  defines "d1 \<equiv> (db s)\<lparr>Recurring_Events := Recurring_Events (db s) @ [new],
                        seq_Recurring_Events := Suc (seq_Recurring_Events (db s))\<rparr>"
  defines "d2 \<equiv> fold insert_row (gen new r (instanceCount r)) d1"
  shows "post_event parse gen (Some data) s
           = (Created (Some new) (select_instances (e_id new) d2), s\<lparr>db := d2\<rparr>)"
proof -
  have f: "e_frequency ev \<noteq> None"
    using bound_event_frequency [OF assms(4)] by simp
  have i: "run (insert_recurring_event ev) s = (None, s\<lparr>db := d1\<rparr>)"
    using assms(1) f by (simp add: run_healthy insert_recurring_event_def d1_def new_def)
  have l1: "last_inserted_event d1 = Some new"
    unfolding d1_def new_def using assms(6) by (rule last_inserted_new)
  have k: "\<not> unique_pair (db (s\<lparr>db := d1\<rparr>))"
    using assms(5) by (simp add: d1_def)
  have c: "create_instances gen (Some r) (s\<lparr>db := d1\<rparr>) = (None, s\<lparr>db := d2\<rparr>)"
    using inserts_plain [of "s\<lparr>db := d1\<rparr>", OF _ k] assms(1)
    by (simp add: create_instances_def l1 d2_def)
  have e2: "Recurring_Events d2 = Recurring_Events d1" "seq_Recurring_Events d2 = seq_Recurring_Events d1"
    by (simp_all add: d2_def fold_insert_row_other)
  have l2: "last_inserted_event d2 = Some new"
    using l1 by (simp add: last_inserted_event_def select_event_def e2)
  have q: "seq_Recurring_Events d2 = e_id new"
    by (simp add: e2 d1_def new_def)
  show ?thesis
    using assms(2) assms(3) assms(4) by (simp add: post_event_def i c l2 q)
qed

lemma txn_regenerate: "txn (snd (regenerate gen today eventId scope r s)) = txn s"
proof (cases "select_event eventId (db s)")
  case None
  then show ?thesis by (simp add: regenerate_def)
next
  case (Some ev)
  then show ?thesis
    by (simp add: regenerate_def Let_def) (rule txn_run_all, auto simp: txn_run)
qed

lemma txn_update_statements:
  "q \<in> set (update_statements gen today eventId data rule scope) \<Longrightarrow> txn (snd (q s)) = txn s"
  by (auto simp: update_statements_def txn_run txn_exec txn_regenerate throw_txn
      split: if_splits option.splits sum.splits)

lemma update_failure_rolls_back:
  assumes "txn s = None"
    and "put_event parse gen today eventId request s = (ServerError e, s')"
  shows "db s' = db s \<and> txn s' = None"
proof -
  obtain data rule where d: "request = Some data" "parse_rule parse data = Inr rule"
    using assms(2) by (auto simp: put_event_def split: option.splits sum.splits)
  let ?qs = "update_statements gen today eventId data rule (scope_or_all (b_updateScope data))"
  obtain r1 s1 where r: "run_all ([BEGIN] @ ?qs @ [COMMIT]) s = (r1, s1)"
    by (cases "run_all ([BEGIN] @ ?qs @ [COMMIT]) s")
  have "r1 \<noteq> None"
    using assms(2) d r
    by (auto simp: put_event_def Let_def simp del: run_all.simps append.simps split: option.splits)
  then obtain e1 where e1: "r1 = Some e1"
    by auto
  have "(ServerError e, s') = rollback_and_rethrow e1 s1"
    using assms(2) d r e1
    by (auto simp: put_event_def Let_def simp del: run_all.simps append.simps split: option.splits)
  moreover have "db (snd (rollback_and_rethrow e1 s1)) = db s
      \<and> txn (snd (rollback_and_rethrow e1 s1)) = None"
  proof (rule transaction_rolls_back [where qs = ?qs])
    show "txn s = None"
      by (rule assms(1))
    show "\<And>q s. q \<in> set ?qs \<Longrightarrow> txn (snd (q s)) = txn s"
      by (rule txn_update_statements)
    show "run_all ([BEGIN] @ ?qs @ [COMMIT]) s = (Some e1, s1)"
      using r e1 by (simp del: run_all.simps append.simps)
  qed
  ultimately show ?thesis
    by (metis snd_conv)
qed

lemma txn_delete_statements:
  "q \<in> set (delete_statements eventId scope instanceDate) \<Longrightarrow> txn (snd (q s)) = txn s"
  by (auto simp: delete_statements_def txn_exec split: if_splits intro!: txn_run_all)

lemma delete_failure_rolls_back:
  assumes "txn s = None"
    and "delete_event eventId deleteScope instanceDate s = (ServerError e, s')"
  shows "db s' = db s \<and> txn s' = None"
proof -
  let ?qs = "delete_statements eventId (scope_or_all deleteScope) instanceDate"
  obtain r1 s1 where r: "run_all ([BEGIN] @ ?qs @ [COMMIT]) s = (r1, s1)"
    by (cases "run_all ([BEGIN] @ ?qs @ [COMMIT]) s")
  have "r1 \<noteq> None"
    using assms(2) r
    by (auto simp: delete_event_def Let_def simp del: run_all.simps append.simps split: option.splits)
  then obtain e1 where e1: "r1 = Some e1"
    by auto
  have "(ServerError e, s') = rollback_and_rethrow e1 s1"
    using assms(2) r e1
    by (auto simp: delete_event_def Let_def simp del: run_all.simps append.simps split: option.splits)
  moreover have "db (snd (rollback_and_rethrow e1 s1)) = db s
      \<and> txn (snd (rollback_and_rethrow e1 s1)) = None"
  proof (rule transaction_rolls_back [where qs = ?qs])
    show "txn s = None"
      by (rule assms(1))
    show "\<And>q s. q \<in> set ?qs \<Longrightarrow> txn (snd (q s)) = txn s"
      by (rule txn_delete_statements)
    show "run_all ([BEGIN] @ ?qs @ [COMMIT]) s = (Some e1, s1)"
      using r e1 by (simp del: run_all.simps append.simps)
  qed
  ultimately show ?thesis
    by (metis snd_conv)
qed


lemma delete_this_healthy:
  assumes "select_event t (db s) = Some template" and "txn s = None" and "fault s = None"
  shows "delete_event t (Some ''this'') (Some dt) s
           = (Success ''Event cancelled successfully'' ''this'',
              s\<lparr>db := insert_exception_or_ignore t dt (cancel_at t dt (db s))\<rparr>)"
proof -
  let ?s0 = "s\<lparr>txn := Some (db s)\<rparr>"
  let ?d = "insert_exception_or_ignore t dt (cancel_at t dt (db s))"
  have com: "COMMIT (?s0\<lparr>db := ?d\<rparr>) = (None, s\<lparr>db := ?d\<rparr>)"
    using COMMIT_healthy [of "?s0\<lparr>db := ?d\<rparr>" "db s"] assms(2) assms(3) by simp
  have "run_all ([BEGIN] @ delete_statements t ''this'' (Some dt) @ [COMMIT]) s = (None, s\<lparr>db := ?d\<rparr>)"
    using assms(2) assms(3) com
    by (simp add: delete_statements_def BEGIN_healthy exec_healthy)
  then show ?thesis
    using assms(1) by (simp add: delete_event_def scope_or_all_def)
qed


subsection \<open>The upsert on a table with the unique pair\<close>

text \<open>
  There the upserts add the pairs of their occurrences to the pairs stored and no other,
  and each adds at most one row.
\<close>

lemma map_key_of_update:
  "(\<And>r. key_of (g r) = key_of r) \<Longrightarrow>
   map key_of (map (\<lambda>r. if P r then g r else r) xs) = map key_of xs"
  by (induction xs) auto

lemma upsert_row_rows:
  "Event_Instances (upsert_row v d)
     = (if \<exists>r \<in> set (Event_Instances d). same_key v r
        then map (\<lambda>r. if same_key v r
                       then r\<lparr>i_start_time := i_start_time v, i_end_time := i_end_time v,
                              i_title := i_title v, i_description := i_description v,
                              i_location := i_location v\<rparr>
                       else r) (Event_Instances d)
        else Event_Instances d @ [stored (Suc (seq_Event_Instances d)) v])"
  by (simp add: upsert_row_def insert_row_def)

lemma upsert_row_keys:
  "set (map key_of (Event_Instances (upsert_row v d)))
     = insert (key_of v) (set (map key_of (Event_Instances d)))"
proof (cases "\<exists>r \<in> set (Event_Instances d). same_key v r")
  case True
  let ?g = "\<lambda>r::event_instance. r\<lparr>i_start_time := i_start_time v, i_end_time := i_end_time v,
               i_title := i_title v, i_description := i_description v,
               i_location := i_location v\<rparr>"
  have m: "map key_of (map (\<lambda>r. if same_key v r then ?g r else r) (Event_Instances d))
             = map key_of (Event_Instances d)"
    by (rule map_key_of_update) (simp add: key_of_def)
  have k: "key_of v \<in> set (map key_of (Event_Instances d))"
    using True by (force simp: same_key_def key_of_def image_iff)
  show ?thesis
    using k True unfolding upsert_row_rows by (simp only: if_True m insert_absorb)
next
  case False
  then show ?thesis
    unfolding upsert_row_rows by (simp add: key_of_def stored_def)
qed

lemma fold_upsert_row_keys:
  "set (map key_of (Event_Instances (fold upsert_row vs d)))
     = set (map key_of vs) \<union> set (map key_of (Event_Instances d))"
  by (induction vs arbitrary: d) (auto simp: upsert_row_keys simp del: set_map)

lemma upsert_row_count:
  "length (filter (\<lambda>i. Q (key_of i)) (Event_Instances (upsert_row v d)))
     \<le> Suc (length (filter (\<lambda>i. Q (key_of i)) (Event_Instances d)))"
proof (cases "\<exists>r \<in> set (Event_Instances d). same_key v r")
  case True
  have m: "filter (\<lambda>i. Q (key_of i)) (map (\<lambda>r. if same_key v r then g r else r) xs)
             = map (\<lambda>r. if same_key v r then g r else r) (filter (\<lambda>i. Q (key_of i)) xs)"
    if "\<And>r. key_of (g r) = key_of r" for g xs
    using that by (induction xs) auto
  have mm: "filter (\<lambda>i. Q (key_of i))
              (map (\<lambda>r. if same_key v r
                         then r\<lparr>i_start_time := i_start_time v, i_end_time := i_end_time v,
                                i_title := i_title v, i_description := i_description v,
                                i_location := i_location v\<rparr>
                         else r) (Event_Instances d))
            = map (\<lambda>r. if same_key v r
                         then r\<lparr>i_start_time := i_start_time v, i_end_time := i_end_time v,
                                i_title := i_title v, i_description := i_description v,
                                i_location := i_location v\<rparr>
                         else r) (filter (\<lambda>i. Q (key_of i)) (Event_Instances d))"
    by (rule m) (simp add: key_of_def)
  have "length (filter (\<lambda>i. Q (key_of i)) (Event_Instances (upsert_row v d)))
          = length (filter (\<lambda>i. Q (key_of i)) (Event_Instances d))"
    using True unfolding upsert_row_rows by (simp only: if_True mm length_map)
  then show ?thesis
    by simp
next
  case False
  then show ?thesis
    unfolding upsert_row_rows by simp
qed

lemma fold_upsert_row_count:
  "length (filter (\<lambda>i. Q (key_of i)) (Event_Instances (fold upsert_row vs d)))
     \<le> length (filter (\<lambda>i. Q (key_of i)) (Event_Instances d)) + length vs"
proof (induction vs arbitrary: d)
  case Nil
  show ?case by simp
next
  case (Cons v vs)
  show ?case
    using Cons.IH [of "upsert_row v d"] upsert_row_count [of Q v d] by simp
qed

subsection \<open>The materializer on weekly rules\<close>

lemma occurrence_dates_total:
  "occurrence_dates (Suc span) n (\<lambda>i. Some (f i)) None i = map f [i..<i + n]"
proof (induction n arbitrary: i)
  case 0
  show ?case by simp
next
  case (Suc n)
  have "[i..<i + Suc n] = i # [Suc i..<Suc i + n]"
    by (simp add: upt_conv_Cons)
  with Suc show ?case by simp
qed

lemma weekly_occurrences:
  assumes "r_frequency r = weekly" and "r_days_of_week r = None" and "r_until r = None"
  shows "generateInstances ev r n
           = map (\<lambda>k. occurrence_of ev (e_start_date ev + k * (7 * r_interval r))) [0..<n]"
proof -
  have c: "candidate r (e_start_date ev) = (\<lambda>i. Some (e_start_date ev + i * (7 * r_interval r)))"
    using assms by (simp add: candidate_def fun_eq_iff)
  have s: "search_span r = Suc 0"
    using assms by (simp add: search_span_def)
  show ?thesis
    using occurrence_dates_total [of 0 n "\<lambda>i. e_start_date ev + i * (7 * r_interval r)" 0] assms(3)
    by (simp add: generateInstances_def c s comp_def)
qed

lemma upt_4: "[0..<4] = [0, 1, 2, 3]"
  by (simp add: numeral_eq_Suc)

lemma upt_6: "[0..<6] = [0, 1, 2, 3, 4, 5]"
  by (simp add: numeral_eq_Suc)

lemma generate_weekly_4:
  "generateInstances ev (weekly_rule c) 4 =
     [occurrence_of ev (e_start_date ev), occurrence_of ev (e_start_date ev + 7),
      occurrence_of ev (e_start_date ev + 14), occurrence_of ev (e_start_date ev + 21)]"
  by (simp add: weekly_occurrences weekly_rule_def upt_4)

lemma generate_weekly_6:
  "generateInstances ev (weekly_rule c) 6 =
     [occurrence_of ev (e_start_date ev), occurrence_of ev (e_start_date ev + 7),
      occurrence_of ev (e_start_date ev + 14), occurrence_of ev (e_start_date ev + 21),
      occurrence_of ev (e_start_date ev + 28), occurrence_of ev (e_start_date ev + 35)]"
  by (simp add: weekly_occurrences weekly_rule_def upt_6)

lemma generateInstances_label:
  "\<forall>ev n. \<forall>v \<in> set (generateInstances ev r n). i_recurring_event_id v = e_id ev"
  by (simp add: generateInstances_def occurrence_of_def)

lemma occurrence_dates_length: "length (occurrence_dates span n cand until i) \<le> n"
  by (induction n arbitrary: i) (auto split: option.split)

lemma generateInstances_length: "\<forall>ev n. length (generateInstances ev r n) \<le> n"
  by (simp add: generateInstances_def occurrence_dates_length)

subsection \<open>The sample series\<close>

text \<open>
  The sample store is what the create handler leaves on empty tables. The requests used
  below have their required fields, well-formed datetimes and a rule the parser accepts.
\<close>

lemma parse_weekly_4: "parseRRule ''FREQ=WEEKLY;COUNT=4'' = Inr (weekly_rule (Some 4))"
  by (simp add: parseRRule_def optional_part_def parse_freq_def parse_positive_def
      parse_nat_def digit_value_def weekly_rule_def)

lemma parse_weekly_6: "parseRRule ''FREQ=WEEKLY;COUNT=6'' = Inr (weekly_rule (Some 6))"
  by (simp add: parseRRule_def optional_part_def parse_freq_def parse_positive_def
      parse_nat_def digit_value_def weekly_rule_def)

lemma parse_weekly: "parseRRule ''FREQ=WEEKLY'' = Inr (weekly_rule None)"
  by (simp add: parseRRule_def optional_part_def parse_freq_def parse_positive_def
      parse_nat_def digit_value_def weekly_rule_def)



lemma validate_sample:
  "validateRequiredFields
     (sample_body\<lparr>b_title := Some ''New'', b_recurrenceRule := r, b_updateScope := u\<rparr>) = None"
  "validateRequiredFields (sample_body\<lparr>b_recurrenceRule := r, b_updateScope := u\<rparr>) = None"
  "validateRequiredFields (sample_body\<lparr>b_recurrenceRule := r\<rparr>) = None"
  "validateRequiredFields (sample_body\<lparr>b_title := Some ''New''\<rparr>) = None"
  "validateRequiredFields sample_body = None"
  by (simp_all add: validateRequiredFields_def sample_body_def truthy_def)

lemma bound_sample:
  "bound_event (sample_body\<lparr>b_title := Some ''New'', b_recurrenceRule := r, b_updateScope := u\<rparr>)
       (Some (weekly_rule c))
     = Inr (sample_event\<lparr>e_id := 0, e_title := ''New''\<rparr>)"
  "bound_event (sample_body\<lparr>b_recurrenceRule := r, b_updateScope := u\<rparr>) (Some (weekly_rule c))
     = Inr (sample_event\<lparr>e_id := 0\<rparr>)"
  "bound_event (sample_body\<lparr>b_recurrenceRule := r\<rparr>) (Some (weekly_rule c))
     = Inr (sample_event\<lparr>e_id := 0\<rparr>)"
  "bound_event (sample_body\<lparr>b_title := Some ''New''\<rparr>) (Some (weekly_rule c))
     = Inr (sample_event\<lparr>e_id := 0, e_title := ''New''\<rparr>)"
  "bound_event sample_body (Some (weekly_rule c)) = Inr (sample_event\<lparr>e_id := 0\<rparr>)"
  by (simp_all add: bound_event_def time_of_def sample_body_def sample_event_def weekly_rule_def
      truthy_def)

lemma parse_rule_sample:
  "parse_rule parseRRule sample_body = Inr (Some (weekly_rule (Some 4)))"
  "parse_rule parseRRule (sample_body\<lparr>b_title := Some ''New''\<rparr>) = Inr (Some (weekly_rule (Some 4)))"
  "parse_rule parseRRule future_request = Inr (Some (weekly_rule (Some 4)))"
  "parse_rule parseRRule
     (sample_body\<lparr>b_recurrenceRule := Some ''FREQ=WEEKLY;COUNT=6'', b_updateScope := Some ''all''\<rparr>)
     = Inr (Some (weekly_rule (Some 6)))"
  "parse_rule parseRRule (sample_body\<lparr>b_recurrenceRule := Some ''FREQ=WEEKLY''\<rparr>)
     = Inr (Some (weekly_rule None))"
  "parse_rule parseRRule (sample_body\<lparr>b_recurrenceRule := Some []\<rparr>) = Inr None"
  by (simp_all add: parse_rule_def sample_body_def future_request_def
      parse_weekly_4 parse_weekly_6 parse_weekly)

lemma scope_sample:
  "scope_or_all (b_updateScope sample_body) = ''all''"
  "scope_or_all (b_updateScope (sample_body\<lparr>b_title := Some ''New''\<rparr>)) = ''all''"
  "scope_or_all (b_updateScope (sample_body\<lparr>b_recurrenceRule := r\<rparr>)) = ''all''"
  "scope_or_all (b_updateScope (sample_body\<lparr>b_recurrenceRule := r, b_updateScope := Some ''all''\<rparr>))
     = ''all''"
  "scope_or_all (b_updateScope future_request) = ''thisAndFuture''"
  by (simp_all add: scope_or_all_def sample_body_def future_request_def)


lemma idle_sel: "db (idle d) = d" "txn (idle d) = None" "fault (idle d) = None"
  by (simp_all add: idle_def)

lemma select_sample: "select_event (Suc 0) sample_database = Some sample_event"
  by (simp add: select_event_def sample_database_def sample_event_def)


lemma sample_healthy:
  "fault (idle sample_database) = None" "txn (idle sample_database) = None"
  "select_event 1 (db (idle sample_database)) = Some sample_event"
  "\<not> unique_pair (db (idle sample_database))"
  by (simp_all add: idle_sel select_sample) (simp add: sample_database_def)

lemma keyed_healthy:
  "fault (idle (keyed sample_database)) = None" "txn (idle (keyed sample_database)) = None"
  "select_event 1 (db (idle (keyed sample_database))) = Some sample_event"
  "unique_pair (db (idle (keyed sample_database)))"
  using select_sample by (simp_all add: idle_sel keyed_def select_event_def)

lemma count_weekly:
  "instanceCount (weekly_rule (Some 4)) = 4" "instanceCount (weekly_rule (Some 6)) = 6"
  "instanceCount (weekly_rule None) = 10"
  by (simp_all add: instanceCount_def weekly_rule_def)

lemma sample_rows:
  "map (\<lambda>r. (i_id r, i_instance_date r)) (Event_Instances sample_database)
     = [(1, 20179), (2, 20186), (3, 20193), (4, 20200)]"
  by (simp add: sample_database_def sample_instance_def stored_def occurrence_of_def)

lemma post_sample:
  "post_event parseRRule generateInstances (Some sample_body) (idle empty_database)
     = (Created (Some sample_event) (Event_Instances sample_database), idle sample_database)"
proof -
  have k: "\<not> unique_pair (db (idle empty_database))"
    "\<forall>e \<in> set (Recurring_Events (db (idle empty_database))).
       e_id e \<le> seq_Recurring_Events (db (idle empty_database))"
    by (simp_all add: idle_sel empty_database_def)
  note run = post_event_plain [OF idle_sel(3) validate_sample(5) parse_rule_sample(1)
      bound_sample(5) k, of generateInstances]
  show ?thesis
    unfolding run count_weekly generate_weekly_4
    by (simp add: idle_def empty_database_def insert_row_def select_instances_def
        sample_database_def sample_instance_def sample_event_def stored_def occurrence_of_def)
qed

text \<open>
  A start time with no \<^verbatim>\<open>T\<close> passes the check of the required fields. The create
  handler then fails before its first statement, the update handler inside its
  transaction, before the \<^verbatim>\<open>UPDATE\<close>; both answer 500 and leave the tables as they
  were.
\<close>

lemma start_time_without_T:
  "post_event parseRRule generateInstances
     (Some (sample_body\<lparr>b_startTime := Some \<lparr>dt_date = 20179, dt_time = None\<rparr>\<rparr>))
     (idle empty_database)
   = (ServerError TypeError, idle empty_database)"
  "put_event parseRRule generateInstances 20179 1
     (Some (sample_body\<lparr>b_startTime := Some \<lparr>dt_date = 20179, dt_time = None\<rparr>\<rparr>))
     (idle sample_database)
   = (ServerError TypeError, idle sample_database)"
proof -
  let ?data = "sample_body\<lparr>b_startTime := Some \<lparr>dt_date = 20179, dt_time = None\<rparr>\<rparr>"
  have v: "validateRequiredFields ?data = None"
    by (simp add: validateRequiredFields_def sample_body_def truthy_def)
  have p: "parse_rule parseRRule ?data = Inr (Some (weekly_rule (Some 4)))"
    by (simp add: parse_rule_def sample_body_def parse_weekly_4)
  have b: "bound_event ?data (Some (weekly_rule (Some 4))) = Inl TypeError"
    by (simp add: bound_event_def time_of_def)
  show "post_event parseRRule generateInstances (Some ?data) (idle empty_database)
          = (ServerError TypeError, idle empty_database)"
    by (simp add: post_event_def v p b)
  have inside: "run_all ([BEGIN] @ update_statements generateInstances 20179 1 ?data
                    (Some (weekly_rule (Some 4))) ''all'' @ [COMMIT]) (idle sample_database)
                  = (Some TypeError, \<lparr>db = sample_database, txn = Some sample_database, fault = None\<rparr>)"
    by (simp add: BEGIN_def tick_def idle_def update_statements_def b throw_def)
  show "put_event parseRRule generateInstances 20179 1 (Some ?data) (idle sample_database)
          = (ServerError TypeError, idle sample_database)"
    using inside
    by (simp add: put_event_def v select_sample p scope_sample rollback_and_rethrow_def
        ROLLBACK_def idle_def
        del: run_all.simps append.simps)
qed

text \<open>
  On a table with the unique pair, an update of the whole series after the occurrence of
  day 20193 has been cancelled: the cancelled row has an exception, so it is not deleted;
  the upsert finds it, leaves it its identifier 3 and its cancelled flag, gives it the new
  title and uses up identifier 7. The other dates are inserted again.
\<close>

lemma update_after_cancel:
  "map (\<lambda>r. (i_id r, i_instance_date r, i_is_cancelled r, i_title r))
     (Event_Instances (db (snd (put_event parseRRule generateInstances 20179 1
        (Some (sample_body\<lparr>b_title := Some ''New''\<rparr>))
        (snd (delete_event 1 (Some ''this'') (Some 20193) (idle (keyed sample_database))))))))
   = [(3, 20193, True, ''New''), (5, 20179, False, ''New''), (6, 20186, False, ''New''),
      (8, 20200, False, ''New'')]"
proof -
  define s1 where "s1 = (idle (keyed sample_database))\<lparr>db :=
      insert_exception_or_ignore 1 20193 (cancel_at 1 20193 (db (idle (keyed sample_database))))\<rparr>"
  have cancel: "delete_event 1 (Some ''this'') (Some 20193) (idle (keyed sample_database))
                  = (Success ''Event cancelled successfully'' ''this'', s1)"
    unfolding s1_def
    by (rule delete_this_healthy [OF keyed_healthy(3) keyed_healthy(2) keyed_healthy(1)])
  have h: "fault s1 = None" "txn s1 = None" "select_event 1 (db s1) = Some sample_event"
    "unique_pair (db s1)"
    using select_sample
    by (simp_all add: s1_def idle_def keyed_def insert_exception_or_ignore_def cancel_at_def
        select_event_def)
  note run = put_event_keyed [OF h(1) h(2) validate_sample(4) h(3) parse_rule_sample(2)
      bound_sample(4) h(4), of generateInstances 20179]
  show ?thesis
    unfolding cancel snd_conv run scope_sample count_weekly generate_weekly_4
    by (simp add: s1_def idle_def keyed_def insert_exception_or_ignore_def cancel_at_def
        delete_non_modified_def exception_dates_def
        upsert_row_def insert_row_def same_key_def
        sample_database_def sample_instance_def sample_event_def stored_def occurrence_of_def)
qed

subsection \<open>The claims\<close>


text \<open>
  C2. The instance table as declared has no unique index on the pair (template, date), so
  the \<^verbatim>\<open>ON CONFLICT(recurring_event_id, instance_date)\<close> of the update handler names a key
  that is not there. The sample series is created on the declared tables; an update of it
  with scope \<^verbatim>\<open>all\<close> that only changes the title is answered 500 at the first upsert
  and rolled back. On a table with the unique pair the same request is carried out.
\<close>

theorem update_is_refused_for_want_of_the_unique_pair:
  "post_event parseRRule generateInstances (Some sample_body) (idle empty_database)
     = (Created (Some sample_event) (Event_Instances sample_database), idle sample_database)
   \<and> put_event parseRRule generateInstances 20179 1
       (Some (sample_body\<lparr>b_title := Some ''New''\<rparr>)) (idle sample_database)
     = (ServerError ConflictTargetMismatch, idle sample_database)
   \<and> put_event parseRRule generateInstances 20179 1
       (Some (sample_body\<lparr>b_title := Some ''New''\<rparr>)) (idle (keyed sample_database))
     = (Updated (Some (sample_event\<lparr>e_title := ''New''\<rparr>))
          [stored 5 (occurrence_of (sample_event\<lparr>e_title := ''New''\<rparr>) 20179),
           stored 6 (occurrence_of (sample_event\<lparr>e_title := ''New''\<rparr>) 20186),
           stored 7 (occurrence_of (sample_event\<lparr>e_title := ''New''\<rparr>) 20193),
           stored 8 (occurrence_of (sample_event\<lparr>e_title := ''New''\<rparr>) 20200)],
        idle (keyed (sample_database
          \<lparr>Recurring_Events := [sample_event\<lparr>e_title := ''New''\<rparr>],
           Event_Instances :=
             [stored 5 (occurrence_of (sample_event\<lparr>e_title := ''New''\<rparr>) 20179),
              stored 6 (occurrence_of (sample_event\<lparr>e_title := ''New''\<rparr>) 20186),
              stored 7 (occurrence_of (sample_event\<lparr>e_title := ''New''\<rparr>) 20193),
              stored 8 (occurrence_of (sample_event\<lparr>e_title := ''New''\<rparr>) 20200)],
           seq_Event_Instances := 8\<rparr>)))"
proof -
  have ne: "filter (\<lambda>i. \<not> (scope_or_all (b_updateScope (sample_body\<lparr>b_title := Some ''New''\<rparr>))
                              = ''thisAndFuture'' \<and> i_instance_date i < 20179))
              (generateInstances ((sample_event\<lparr>e_id := 0, e_title := ''New''\<rparr>)\<lparr>e_id := 1\<rparr>)
                 (weekly_rule (Some 4)) (instanceCount (weekly_rule (Some 4)))) \<noteq> []"
    unfolding scope_sample count_weekly generate_weekly_4 by simp
  have declared: "put_event parseRRule generateInstances 20179 1
       (Some (sample_body\<lparr>b_title := Some ''New''\<rparr>)) (idle sample_database)
     = (ServerError ConflictTargetMismatch, idle sample_database)"
    by (rule put_event_refused [where gen = generateInstances and today = 20179 and eventId = 1
          and r = "weekly_rule (Some 4)" and ev = "sample_event\<lparr>e_id := 0, e_title := ''New''\<rparr>",
          OF sample_healthy(1) sample_healthy(2) validate_sample(4)
          sample_healthy(3) parse_rule_sample(2) bound_sample(4) sample_healthy(4) ne])
  note run = put_event_keyed [OF keyed_healthy(1) keyed_healthy(2) validate_sample(4)
      keyed_healthy(3) parse_rule_sample(2) bound_sample(4) keyed_healthy(4),
      of generateInstances 20179]
  have with_key: "put_event parseRRule generateInstances 20179 1
       (Some (sample_body\<lparr>b_title := Some ''New''\<rparr>)) (idle (keyed sample_database))
     = (Updated (Some (sample_event\<lparr>e_title := ''New''\<rparr>))
          [stored 5 (occurrence_of (sample_event\<lparr>e_title := ''New''\<rparr>) 20179),
           stored 6 (occurrence_of (sample_event\<lparr>e_title := ''New''\<rparr>) 20186),
           stored 7 (occurrence_of (sample_event\<lparr>e_title := ''New''\<rparr>) 20193),
           stored 8 (occurrence_of (sample_event\<lparr>e_title := ''New''\<rparr>) 20200)],
        idle (keyed (sample_database
          \<lparr>Recurring_Events := [sample_event\<lparr>e_title := ''New''\<rparr>],
           Event_Instances :=
             [stored 5 (occurrence_of (sample_event\<lparr>e_title := ''New''\<rparr>) 20179),
              stored 6 (occurrence_of (sample_event\<lparr>e_title := ''New''\<rparr>) 20186),
              stored 7 (occurrence_of (sample_event\<lparr>e_title := ''New''\<rparr>) 20193),
              stored 8 (occurrence_of (sample_event\<lparr>e_title := ''New''\<rparr>) 20200)],
           seq_Event_Instances := 8\<rparr>)))"
    unfolding run scope_sample count_weekly generate_weekly_4
    by (simp add: idle_def keyed_def delete_non_modified_def exception_dates_def
        upsert_row_def insert_row_def same_key_def select_event_def select_instances_def
        sample_database_def sample_instance_def sample_event_def stored_def occurrence_of_def)
  show ?thesis
    using post_sample declared with_key by (intro conjI)
qed

text \<open>
  C3. The create handler inserts the template row before any \<^verbatim>\<open>BEGIN\<close>. When the
  store raises on the statement after it, the first instance insert, the handler answers
  500 and the template row stays stored, with no instance and no transaction to roll back.
\<close>

theorem create_is_not_atomic:
  "post_event parseRRule generateInstances (Some sample_body)
     ((idle empty_database)\<lparr>fault := Some 1\<rparr>)
   = (ServerError StoreFailure,
      idle (empty_database\<lparr>Recurring_Events := [sample_event], seq_Recurring_Events := 1\<rparr>))"
proof -
  let ?d1 = "empty_database\<lparr>Recurring_Events := [sample_event], seq_Recurring_Events := Suc 0\<rparr>"
  have i: "run (insert_recurring_event (sample_event\<lparr>e_id := 0\<rparr>)) ((idle empty_database)\<lparr>fault := Some (Suc 0)\<rparr>)
             = (None, (idle ?d1)\<lparr>fault := Some 0\<rparr>)"
    by (simp add: run_def tick_def idle_def insert_recurring_event_def sample_event_def empty_database_def)
  have l: "last_inserted_event ?d1 = Some sample_event"
    by (simp add: last_inserted_event_def select_event_def sample_event_def)
  have c: "create_instances generateInstances (Some (weekly_rule (Some 4))) ((idle ?d1)\<lparr>fault := Some 0\<rparr>)
             = (Some StoreFailure, idle ?d1)"
    by (simp add: create_instances_def idle_def l count_weekly generate_weekly_4 run_def)
  show ?thesis
    by (simp add: post_event_def validate_sample(5) parse_rule_sample(1) bound_sample(5) i c)
qed

text \<open>
  C4. The sample series has four instances, identifiers 1 to 4. Updating it with scope
  \<^verbatim>\<open>all\<close> to \<^verbatim>\<open>FREQ=WEEKLY;COUNT=6\<close>, every other field as before, is answered
  500 on the table as declared, for the upsert is refused; the four rows are still there
  and no row has been added. On a table with the unique pair the update goes through and
  leaves six instances with the identifiers 5 to 10: the four rows were deleted and their
  dates inserted again, none keeps its identifier.
\<close>

theorem count_4_to_6_keeps_no_identifier:
  "map (\<lambda>r. (i_id r, i_instance_date r)) (Event_Instances sample_database)
     = [(1, 20179), (2, 20186), (3, 20193), (4, 20200)]
   \<and> put_event parseRRule generateInstances 20179 1
         (Some (sample_body\<lparr>b_recurrenceRule := Some ''FREQ=WEEKLY;COUNT=6'',
                            b_updateScope := Some ''all''\<rparr>))
         (idle sample_database)
     = (ServerError ConflictTargetMismatch, idle sample_database)
   \<and> map (\<lambda>r. (i_id r, i_instance_date r))
         (Event_Instances (db (snd (put_event parseRRule generateInstances 20179 1
            (Some (sample_body\<lparr>b_recurrenceRule := Some ''FREQ=WEEKLY;COUNT=6'',
                               b_updateScope := Some ''all''\<rparr>))
            (idle (keyed sample_database))))))
     = [(5, 20179), (6, 20186), (7, 20193), (8, 20200), (9, 20207), (10, 20214)]"
proof -
  let ?data = "sample_body\<lparr>b_recurrenceRule := Some ''FREQ=WEEKLY;COUNT=6'', b_updateScope := Some ''all''\<rparr>"
  have ne: "filter (\<lambda>i. \<not> (scope_or_all (b_updateScope ?data) = ''thisAndFuture''
                            \<and> i_instance_date i < 20179))
              (generateInstances ((sample_event\<lparr>e_id := 0\<rparr>)\<lparr>e_id := 1\<rparr>)
                 (weekly_rule (Some 6)) (instanceCount (weekly_rule (Some 6)))) \<noteq> []"
    unfolding scope_sample count_weekly generate_weekly_6 by simp
  have declared: "put_event parseRRule generateInstances 20179 1 (Some ?data) (idle sample_database)
     = (ServerError ConflictTargetMismatch, idle sample_database)"
    by (rule put_event_refused [where gen = generateInstances and today = 20179 and eventId = 1
          and r = "weekly_rule (Some 6)" and ev = "sample_event\<lparr>e_id := 0\<rparr>",
          OF sample_healthy(1) sample_healthy(2) validate_sample(2)
          sample_healthy(3) parse_rule_sample(4) bound_sample(2) sample_healthy(4) ne])
  note run = put_event_keyed [OF keyed_healthy(1) keyed_healthy(2) validate_sample(2)
      keyed_healthy(3) parse_rule_sample(4) bound_sample(2) keyed_healthy(4),
      of generateInstances 20179]
  have with_key: "map (\<lambda>r. (i_id r, i_instance_date r))
         (Event_Instances (db (snd (put_event parseRRule generateInstances 20179 1 (Some ?data)
            (idle (keyed sample_database))))))
     = [(5, 20179), (6, 20186), (7, 20193), (8, 20200), (9, 20207), (10, 20214)]"
    unfolding run scope_sample count_weekly generate_weekly_6
    by (simp add: idle_def keyed_def delete_non_modified_def exception_dates_def
        upsert_row_def insert_row_def same_key_def
        sample_database_def sample_instance_def sample_event_def stored_def occurrence_of_def)
  show ?thesis
    using sample_rows declared with_key by (intro conjI)
qed

text \<open>
  C5. The instance set of the sample series is exactly what its rule generates. Applying
  the same rule again with scope \<^verbatim>\<open>all\<close> and no field change is not free of writes.
  On the table as declared the handler's \<^verbatim>\<open>DELETE\<close> removes all four instances, the
  first upsert is then refused, and when the handler's \<^verbatim>\<open>catch\<close> takes over the
  transaction holds an empty instance table; the rollback restores the rows and the answer
  is 500. On a table with the unique pair the request is carried out, and the four rows
  have been deleted and inserted again: the dates that had the identifiers 1 to 4 have the
  identifiers 5 to 8.
\<close>

theorem same_rule_again_deletes_and_inserts:
  "map row_values (Event_Instances sample_database)
     = generateInstances sample_event (weekly_rule (Some 4)) (instanceCount (weekly_rule (Some 4)))
   \<and> run_all ([BEGIN]
               @ update_statements generateInstances 20179 1 sample_body
                   (Some (weekly_rule (Some 4))) ''all''
               @ [COMMIT]) (idle sample_database)
     = (Some ConflictTargetMismatch,
        \<lparr>db = sample_database\<lparr>Event_Instances := []\<rparr>, txn = Some sample_database,
         fault = None\<rparr>)
   \<and> put_event parseRRule generateInstances 20179 1 (Some sample_body) (idle sample_database)
     = (ServerError ConflictTargetMismatch, idle sample_database)
   \<and> map (\<lambda>r. (i_id r, i_instance_date r)) (Event_Instances sample_database)
     = [(1, 20179), (2, 20186), (3, 20193), (4, 20200)]
   \<and> map (\<lambda>r. (i_id r, i_instance_date r))
         (Event_Instances (db (snd (put_event parseRRule generateInstances 20179 1
            (Some sample_body) (idle (keyed sample_database))))))
     = [(5, 20179), (6, 20186), (7, 20193), (8, 20200)]"
proof -
  have set_is_generated: "map row_values (Event_Instances sample_database)
     = generateInstances sample_event (weekly_rule (Some 4)) (instanceCount (weekly_rule (Some 4)))"
    unfolding count_weekly generate_weekly_4
    by (simp add: row_values_def sample_database_def sample_instance_def stored_def
        occurrence_of_def sample_event_def)
  have ne: "filter (\<lambda>i. \<not> (''all'' = ''thisAndFuture'' \<and> i_instance_date i < 20179))
              (generateInstances ((sample_event\<lparr>e_id := 0\<rparr>)\<lparr>e_id := 1\<rparr>)
                 (weekly_rule (Some 4)) (instanceCount (weekly_rule (Some 4)))) \<noteq> []"
    unfolding scope_sample count_weekly generate_weekly_4 by simp
  have ne': "filter (\<lambda>i. \<not> (scope_or_all (b_updateScope sample_body) = ''thisAndFuture''
                            \<and> i_instance_date i < 20179))
              (generateInstances ((sample_event\<lparr>e_id := 0\<rparr>)\<lparr>e_id := 1\<rparr>)
                 (weekly_rule (Some 4)) (instanceCount (weekly_rule (Some 4)))) \<noteq> []"
    unfolding scope_sample count_weekly generate_weekly_4 by simp
  note inside = update_refused_inside [where gen = generateInstances and today = 20179
      and eventId = 1 and r = "weekly_rule (Some 4)" and ev = "sample_event\<lparr>e_id := 0\<rparr>"
      and scope = "''all''" and data = sample_body,
      OF sample_healthy(1) sample_healthy(2) sample_healthy(3) bound_sample(5)
      sample_healthy(4) ne]
  have in_transaction: "run_all ([BEGIN]
               @ update_statements generateInstances 20179 1 sample_body
                   (Some (weekly_rule (Some 4))) ''all''
               @ [COMMIT]) (idle sample_database)
     = (Some ConflictTargetMismatch,
        \<lparr>db = sample_database\<lparr>Event_Instances := []\<rparr>, txn = Some sample_database,
         fault = None\<rparr>)"
    unfolding inside
    by (simp add: idle_def delete_non_modified_def exception_dates_def
        sample_database_def sample_instance_def sample_event_def stored_def occurrence_of_def)
  have declared: "put_event parseRRule generateInstances 20179 1 (Some sample_body)
      (idle sample_database) = (ServerError ConflictTargetMismatch, idle sample_database)"
    by (rule put_event_refused [where gen = generateInstances and today = 20179 and eventId = 1
          and r = "weekly_rule (Some 4)" and ev = "sample_event\<lparr>e_id := 0\<rparr>",
          OF sample_healthy(1) sample_healthy(2) validate_sample(5)
          sample_healthy(3) parse_rule_sample(1) bound_sample(5) sample_healthy(4) ne'])
  note run = put_event_keyed [OF keyed_healthy(1) keyed_healthy(2) validate_sample(5)
      keyed_healthy(3) parse_rule_sample(1) bound_sample(5) keyed_healthy(4),
      of generateInstances 20179]
  have with_key: "map (\<lambda>r. (i_id r, i_instance_date r))
         (Event_Instances (db (snd (put_event parseRRule generateInstances 20179 1
            (Some sample_body) (idle (keyed sample_database))))))
     = [(5, 20179), (6, 20186), (7, 20193), (8, 20200)]"
    unfolding run scope_sample count_weekly generate_weekly_4
    by (simp add: idle_def keyed_def delete_non_modified_def exception_dates_def
        upsert_row_def insert_row_def same_key_def
        sample_database_def sample_instance_def sample_event_def stored_def occurrence_of_def)
  show ?thesis
    using set_is_generated in_transaction declared sample_rows with_key by (intro conjI)
qed

text \<open>
  C6. For a weekly rule with \<^verbatim>\<open>COUNT=n\<close>, \<open>n\<close> positive, any interval, no
  \<^verbatim>\<open>BYDAY\<close> and no \<^verbatim>\<open>UNTIL\<close>, the materializer returns exactly \<open>n\<close> occurrences,
  the first on the anchor date, each next one exactly \<open>7 * interval\<close> days after the one
  before, in ascending order of date.
\<close>

theorem weekly_materialization:
  assumes "r_frequency r = weekly" and "r_days_of_week r = None" and "r_until r = None"
    and "r_count r = Some n" and "0 < n"
  shows "length (generateInstances ev r (instanceCount r)) = n
    \<and> i_instance_date (generateInstances ev r (instanceCount r) ! 0) = e_start_date ev
    \<and> (\<forall>k. Suc k < n \<longrightarrow>
          i_instance_date (generateInstances ev r (instanceCount r) ! Suc k)
            = i_instance_date (generateInstances ev r (instanceCount r) ! k) + 7 * r_interval r)
    \<and> sorted (map i_instance_date (generateInstances ev r (instanceCount r)))"
proof -
  have c: "instanceCount r = n"
    using assms(4) assms(5) by (simp add: instanceCount_def)
  have g: "generateInstances ev r n
             = map (\<lambda>k. occurrence_of ev (e_start_date ev + k * (7 * r_interval r))) [0..<n]"
    using assms(1) assms(2) assms(3) by (rule weekly_occurrences)
  have l: "length (generateInstances ev r (instanceCount r)) = n"
    by (simp add: c g)
  have z: "i_instance_date (generateInstances ev r (instanceCount r) ! 0) = e_start_date ev"
    using assms(5) by (simp add: c g occurrence_of_def)
  have st: "\<forall>k. Suc k < n \<longrightarrow>
          i_instance_date (generateInstances ev r (instanceCount r) ! Suc k)
            = i_instance_date (generateInstances ev r (instanceCount r) ! k) + 7 * r_interval r"
    by (simp add: c g occurrence_of_def)
  have so: "sorted (map i_instance_date (generateInstances ev r (instanceCount r)))"
    by (simp add: c g comp_def occurrence_of_def sorted_iff_nth_mono)
  show ?thesis
    using l z st so by blast
qed

theorem weekly_materialization_witness:
  "r_frequency (weekly_rule (Some 4)) = weekly \<and> r_days_of_week (weekly_rule (Some 4)) = None
   \<and> r_until (weekly_rule (Some 4)) = None \<and> r_count (weekly_rule (Some 4)) = Some 4
   \<and> (0::nat) < 4
   \<and> map i_instance_date
        (generateInstances sample_event (weekly_rule (Some 4)) (instanceCount (weekly_rule (Some 4))))
      = [20179, 20186, 20193, 20200]
   \<and> length (generateInstances sample_event (weekly_rule (Some 4))
        (instanceCount (weekly_rule (Some 4)))) = 4
   \<and> sorted (map i_instance_date
        (generateInstances sample_event (weekly_rule (Some 4)) (instanceCount (weekly_rule (Some 4)))))"
proof -
  have h: "r_frequency (weekly_rule (Some 4)) = weekly" "r_days_of_week (weekly_rule (Some 4)) = None"
    "r_until (weekly_rule (Some 4)) = None" "r_count (weekly_rule (Some 4)) = Some 4" "(0::nat) < 4"
    by (simp_all add: weekly_rule_def)
  have v: "map i_instance_date
        (generateInstances sample_event (weekly_rule (Some 4)) (instanceCount (weekly_rule (Some 4))))
      = [20179, 20186, 20193, 20200]"
    by (simp add: instanceCount_def weekly_rule_def [symmetric] generate_weekly_4 h
        occurrence_of_def sample_event_def)
  show ?thesis
    using weekly_materialization [OF h, of sample_event] h v
    by blast
qed



text \<open>
  C8. A rule without a count makes \<^verbatim>\<open>instanceCount\<close> the default 10, in the create
  handler and in the update handler: each behaves as it does with a generator that is
  always asked for 10, and what each of them writes is what the generator returns when
  asked for 10. The generator is a parameter; it is assumed to return no more occurrences
  than it is asked for and to label them with the identifier of the event it is given.

  Creation, on the tables as declared: the rows added to the instance table are the
  occurrences generated for the new template, in their order, so at most 10.

  Regeneration with scope \<^verbatim>\<open>all\<close> of an existing template: on the table as declared
  the first of these occurrences is refused by the upsert and nothing is written; on a
  table with the unique pair every generated date has a row of the template afterwards,
  and the rows of the template on dates without an exception number at most 10.
\<close>

theorem default_bound_of_ten:
  assumes "r_count r = None"
    and "b_recurrenceRule data = Some ruleText" and "ruleText \<noteq> []"
    and "parse ruleText = Inr r"
    and "validateRequiredFields data = None" and "bound_event data (Some r) = Inr ev"
    and "fault s = None" and "txn s = None"
    and "\<forall>e \<in> set (Recurring_Events (db s)). e_id e \<le> seq_Recurring_Events (db s)"
    and "\<forall>e n. length (gen e r n) \<le> n"
    and "\<forall>e n. \<forall>v \<in> set (gen e r n). i_recurring_event_id v = e_id e"
  shows "instanceCount r = 10
    \<and> post_event parse gen (Some data) s
        = post_event parse (\<lambda>e r' n. gen e r' 10) (Some data) s
    \<and> put_event parse gen today eventId (Some data) s
        = put_event parse (\<lambda>e r' n. gen e r' 10) today eventId (Some data) s
    \<and> (\<not> unique_pair (db s) \<longrightarrow>
         (case post_event parse gen (Some data) s of (response, s') \<Rightarrow>
            response = Created (Some (ev\<lparr>e_id := Suc (seq_Recurring_Events (db s))\<rparr>))
                         (select_instances (Suc (seq_Recurring_Events (db s))) (db s'))
            \<and> take (length (Event_Instances (db s))) (Event_Instances (db s'))
                = Event_Instances (db s)
            \<and> map row_values (drop (length (Event_Instances (db s))) (Event_Instances (db s')))
                = gen (ev\<lparr>e_id := Suc (seq_Recurring_Events (db s))\<rparr>) r 10
            \<and> length (Event_Instances (db s')) \<le> length (Event_Instances (db s)) + 10))
    \<and> (select_event eventId (db s) = Some existing
         \<and> scope_or_all (b_updateScope data) = ''all''
         \<and> \<not> unique_pair (db s) \<and> gen (ev\<lparr>e_id := eventId\<rparr>) r 10 \<noteq> [] \<longrightarrow>
         put_event parse gen today eventId (Some data) s
           = (ServerError ConflictTargetMismatch, s))
    \<and> (select_event eventId (db s) = Some existing
         \<and> scope_or_all (b_updateScope data) = ''all''
         \<and> unique_pair (db s) \<longrightarrow>
         (case put_event parse gen today eventId (Some data) s of (response, s') \<Rightarrow>
            response = Updated (Some (ev\<lparr>e_id := eventId\<rparr>)) (select_instances eventId (db s'))
            \<and> i_instance_date ` set (gen (ev\<lparr>e_id := eventId\<rparr>) r 10)
                \<subseteq> i_instance_date ` set (select_instances eventId (db s'))
            \<and> length (filter (\<lambda>i. i_instance_date i \<notin> set (exception_dates eventId (db s)))
                         (select_instances eventId (db s'))) \<le> 10))"
proof -
  let ?new = "ev\<lparr>e_id := Suc (seq_Recurring_Events (db s))\<rparr>"
  let ?upd = "ev\<lparr>e_id := eventId\<rparr>"
  have n: "instanceCount r = 10"
    using assms(1) by (simp add: instanceCount_def)
  have p: "parse_rule parse data = Inr (Some r)"
    using assms(2) assms(3) assms(4) by (simp add: parse_rule_def)
  have c: "create_instances gen (Some r) = create_instances (\<lambda>e r' n. gen e r' 10) (Some r)"
    by (auto simp: create_instances_def n fun_eq_iff split: option.split)
  have post_eq: "post_event parse gen (Some data) s
                   = post_event parse (\<lambda>e r' n. gen e r' 10) (Some data) s"
    by (simp add: post_event_def p c split: option.split sum.split)
  have g: "regenerate gen today eventId sc r = regenerate (\<lambda>e r' n. gen e r' 10) today eventId sc r"
    for sc
    by (auto simp: regenerate_def n fun_eq_iff split: option.split)
  have put_eq: "put_event parse gen today eventId (Some data) s
                  = put_event parse (\<lambda>e r' n. gen e r' 10) today eventId (Some data) s"
    by (simp add: put_event_def p update_statements_def g split: option.split)
  have created: "case post_event parse gen (Some data) s of (response, s') \<Rightarrow>
            response = Created (Some ?new) (select_instances (Suc (seq_Recurring_Events (db s))) (db s'))
            \<and> take (length (Event_Instances (db s))) (Event_Instances (db s'))
                = Event_Instances (db s)
            \<and> map row_values (drop (length (Event_Instances (db s))) (Event_Instances (db s')))
                = gen ?new r 10
            \<and> length (Event_Instances (db s')) \<le> length (Event_Instances (db s)) + 10"
    if k: "\<not> unique_pair (db s)"
  proof -
    define d1 where "d1 = (db s)\<lparr>Recurring_Events := Recurring_Events (db s) @ [?new],
        seq_Recurring_Events := Suc (seq_Recurring_Events (db s))\<rparr>"
    define d2 where "d2 = fold insert_row (gen ?new r 10) d1"
    have run: "post_event parse gen (Some data) s
                 = (Created (Some ?new) (select_instances (Suc (seq_Recurring_Events (db s))) d2),
                    s\<lparr>db := d2\<rparr>)"
      using post_event_plain [OF assms(7) assms(5) p assms(6) k assms(9), of gen]
      by (simp add: n d1_def d2_def)
    have i1: "Event_Instances d1 = Event_Instances (db s)"
      by (simp add: d1_def)
    have rows: "map row_values (Event_Instances d2)
                  = map row_values (Event_Instances (db s)) @ gen ?new r 10"
      "take (length (Event_Instances (db s))) (Event_Instances d2) = Event_Instances (db s)"
      using fold_insert_row_rows [of "gen ?new r 10" d1] by (simp_all add: d2_def i1)
    have "drop (length (Event_Instances (db s))) (map row_values (Event_Instances d2))
            = gen ?new r 10"
      unfolding rows(1) by simp
    then have added: "map row_values (drop (length (Event_Instances (db s))) (Event_Instances d2))
                        = gen ?new r 10"
      by (simp only: drop_map)
    have "length (map row_values (Event_Instances d2))
            = length (Event_Instances (db s)) + length (gen ?new r 10)"
      unfolding rows(1) by simp
    moreover have "length (gen ?new r 10) \<le> 10"
      using assms(10) by simp
    ultimately have bound: "length (Event_Instances d2) \<le> length (Event_Instances (db s)) + 10"
      by simp
    show ?thesis
      using rows(2) added bound by (simp add: run)
  qed
  have refused: "put_event parse gen today eventId (Some data) s
                   = (ServerError ConflictTargetMismatch, s)"
    if e: "select_event eventId (db s) = Some existing"
      and sc: "scope_or_all (b_updateScope data) = ''all''"
      and k: "\<not> unique_pair (db s)" and g: "gen ?upd r 10 \<noteq> []"
  proof -
    have ne: "filter (\<lambda>i. \<not> (scope_or_all (b_updateScope data) = ''thisAndFuture''
                               \<and> i_instance_date i < today))
                (gen ?upd r (instanceCount r)) \<noteq> []"
      using g by (simp add: sc n)
    show ?thesis
      by (rule put_event_refused [where gen = gen and today = today and eventId = eventId
            and r = r and ev = ev, OF assms(7) assms(8) assms(5) e p assms(6) k ne])
  qed
  have regenerated: "case put_event parse gen today eventId (Some data) s of (response, s') \<Rightarrow>
            response = Updated (Some ?upd) (select_instances eventId (db s'))
            \<and> i_instance_date ` set (gen ?upd r 10)
                \<subseteq> i_instance_date ` set (select_instances eventId (db s'))
            \<and> length (filter (\<lambda>i. i_instance_date i \<notin> set (exception_dates eventId (db s)))
                         (select_instances eventId (db s'))) \<le> 10"
    if e: "select_event eventId (db s) = Some existing"
      and sc: "scope_or_all (b_updateScope data) = ''all''"
      and k: "unique_pair (db s)"
  proof -
    let ?Q = "\<lambda>k. fst k = eventId \<and> snd k \<notin> set (exception_dates eventId (db s))"
    define d1 where "d1 = (db s)\<lparr>Recurring_Events :=
        map (\<lambda>e. if e_id e = eventId then ev\<lparr>e_id := e_id e\<rparr> else e) (Recurring_Events (db s))\<rparr>"
    define d2 where "d2 = delete_non_modified eventId d1"
    define d3 where "d3 = fold upsert_row (gen ?upd r 10) d2"
    have run: "put_event parse gen today eventId (Some data) s
                 = (Updated (select_event eventId d3) (select_instances eventId d3), s\<lparr>db := d3\<rparr>)"
      using put_event_keyed [OF assms(7) assms(8) assms(5) e p assms(6) k, of gen today]
      by (simp add: sc n d1_def d2_def d3_def)
    have sel: "select_event eventId d3 = Some ?upd"
      using e
      by (simp add: select_event_def d3_def fold_upsert_row_other d2_def delete_non_modified_def
          d1_def select_after_update)
    have x1: "exception_dates eventId d1 = exception_dates eventId (db s)"
      by (simp add: exception_dates_def d1_def)
    have none2: "filter (\<lambda>i. ?Q (key_of i)) (Event_Instances d2) = []"
      by (auto simp: d2_def delete_non_modified_def x1 key_of_def filter_empty_conv)
    have "length (filter (\<lambda>i. ?Q (key_of i)) (Event_Instances d3))
            \<le> length (filter (\<lambda>i. ?Q (key_of i)) (Event_Instances d2)) + length (gen ?upd r 10)"
      unfolding d3_def by (rule fold_upsert_row_count)
    moreover have "length (gen ?upd r 10) \<le> 10"
      using assms(10) by simp
    ultimately have c3: "length (filter (\<lambda>i. ?Q (key_of i)) (Event_Instances d3)) \<le> 10"
      by (simp add: none2)
    have "filter (\<lambda>i. i_instance_date i \<notin> set (exception_dates eventId (db s)))
            (select_instances eventId d3)
          = sort_key i_instance_date (filter (\<lambda>i. ?Q (key_of i)) (Event_Instances d3))"
      by (simp add: select_instances_def filter_sort key_of_def conj_commute)
    then have bound: "length (filter (\<lambda>i. i_instance_date i \<notin> set (exception_dates eventId (db s)))
                                (select_instances eventId d3)) \<le> 10"
      using c3 by simp
    have keys: "set (map key_of (Event_Instances d3))
                  = set (map key_of (gen ?upd r 10)) \<union> set (map key_of (Event_Instances d2))"
      unfolding d3_def by (rule fold_upsert_row_keys)
    have dates: "i_instance_date ` set (gen ?upd r 10)
                   \<subseteq> i_instance_date ` set (select_instances eventId d3)"
    proof
      fix dt assume "dt \<in> i_instance_date ` set (gen ?upd r 10)"
      then obtain v where v: "v \<in> set (gen ?upd r 10)" "i_instance_date v = dt"
        by auto
      have "i_recurring_event_id v = eventId"
        using assms(11) v(1) by fastforce
      then have "key_of v = (eventId, dt)"
        using v(2) by (simp add: key_of_def)
      then have "(eventId, dt) \<in> set (map key_of (Event_Instances d3))"
        using v(1) unfolding keys by force
      then obtain row where "row \<in> set (Event_Instances d3)" "key_of row = (eventId, dt)"
        by auto
      then have "row \<in> set (select_instances eventId d3)" "i_instance_date row = dt"
        by (simp_all add: select_instances_def key_of_def)
      then show "dt \<in> i_instance_date ` set (select_instances eventId d3)"
        by blast
    qed
    show ?thesis
      using sel dates bound by (simp add: run)
  qed
  show ?thesis
  proof (intro conjI impI)
    show "instanceCount r = 10"
      by (rule n)
  next
    show "post_event parse gen (Some data) s
            = post_event parse (\<lambda>e r' n. gen e r' 10) (Some data) s"
      by (rule post_eq)
  next
    show "put_event parse gen today eventId (Some data) s
            = put_event parse (\<lambda>e r' n. gen e r' 10) today eventId (Some data) s"
      by (rule put_eq)
  next
    assume "\<not> unique_pair (db s)"
    then show "case post_event parse gen (Some data) s of (response, s') \<Rightarrow>
            response = Created (Some ?new) (select_instances (Suc (seq_Recurring_Events (db s))) (db s'))
            \<and> take (length (Event_Instances (db s))) (Event_Instances (db s'))
                = Event_Instances (db s)
            \<and> map row_values (drop (length (Event_Instances (db s))) (Event_Instances (db s')))
                = gen ?new r 10
            \<and> length (Event_Instances (db s')) \<le> length (Event_Instances (db s)) + 10"
      by (rule created)
  next
    assume "select_event eventId (db s) = Some existing
         \<and> scope_or_all (b_updateScope data) = ''all''
         \<and> \<not> unique_pair (db s) \<and> gen ?upd r 10 \<noteq> []"
    then show "put_event parse gen today eventId (Some data) s
           = (ServerError ConflictTargetMismatch, s)"
      by (intro refused) simp_all
  next
    assume "select_event eventId (db s) = Some existing
         \<and> scope_or_all (b_updateScope data) = ''all''
         \<and> unique_pair (db s)"
    then show "case put_event parse gen today eventId (Some data) s of (response, s') \<Rightarrow>
            response = Updated (Some ?upd) (select_instances eventId (db s'))
            \<and> i_instance_date ` set (gen ?upd r 10)
                \<subseteq> i_instance_date ` set (select_instances eventId (db s'))
            \<and> length (filter (\<lambda>i. i_instance_date i \<notin> set (exception_dates eventId (db s)))
                         (select_instances eventId (db s'))) \<le> 10"
      by (intro regenerated) simp_all
  qed
qed

theorem default_bound_of_ten_witness:
  "r_count (weekly_rule None) = None
   \<and> b_recurrenceRule (sample_body\<lparr>b_recurrenceRule := Some ''FREQ=WEEKLY''\<rparr>) = Some ''FREQ=WEEKLY''
   \<and> parseRRule ''FREQ=WEEKLY'' = Inr (weekly_rule None)
   \<and> validateRequiredFields (sample_body\<lparr>b_recurrenceRule := Some ''FREQ=WEEKLY''\<rparr>) = None
   \<and> bound_event (sample_body\<lparr>b_recurrenceRule := Some ''FREQ=WEEKLY''\<rparr>) (Some (weekly_rule None)) = Inr (sample_event\<lparr>e_id := 0\<rparr>)
   \<and> length (generateInstances ((sample_event\<lparr>e_id := 0\<rparr>)\<lparr>e_id := 1\<rparr>) (weekly_rule None) 10) = 10
   \<and> instanceCount (weekly_rule None) = 10
   \<and> post_event parseRRule generateInstances (Some (sample_body\<lparr>b_recurrenceRule := Some ''FREQ=WEEKLY''\<rparr>)) (idle sample_database)
       = post_event parseRRule (\<lambda>e r' n. generateInstances e r' 10) (Some (sample_body\<lparr>b_recurrenceRule := Some ''FREQ=WEEKLY''\<rparr>)) (idle sample_database)
   \<and> put_event parseRRule generateInstances 20179 1 (Some (sample_body\<lparr>b_recurrenceRule := Some ''FREQ=WEEKLY''\<rparr>)) (idle sample_database)
       = put_event parseRRule (\<lambda>e r' n. generateInstances e r' 10) 20179 1 (Some (sample_body\<lparr>b_recurrenceRule := Some ''FREQ=WEEKLY''\<rparr>)) (idle sample_database)
   \<and> (case post_event parseRRule generateInstances (Some (sample_body\<lparr>b_recurrenceRule := Some ''FREQ=WEEKLY''\<rparr>)) (idle sample_database) of (response, s') \<Rightarrow>
            response = Created (Some ((sample_event\<lparr>e_id := 0\<rparr>)\<lparr>e_id := Suc (seq_Recurring_Events (db (idle sample_database)))\<rparr>))
                         (select_instances (Suc (seq_Recurring_Events (db (idle sample_database)))) (db s'))
            \<and> take (length (Event_Instances (db (idle sample_database)))) (Event_Instances (db s'))
                = Event_Instances (db (idle sample_database))
            \<and> map row_values (drop (length (Event_Instances (db (idle sample_database)))) (Event_Instances (db s')))
                = generateInstances ((sample_event\<lparr>e_id := 0\<rparr>)\<lparr>e_id := Suc (seq_Recurring_Events (db (idle sample_database)))\<rparr>) (weekly_rule None) 10
            \<and> length (Event_Instances (db s')) \<le> length (Event_Instances (db (idle sample_database))) + 10)
   \<and> put_event parseRRule generateInstances 20179 1 (Some (sample_body\<lparr>b_recurrenceRule := Some ''FREQ=WEEKLY''\<rparr>)) (idle sample_database)
       = (ServerError ConflictTargetMismatch, idle sample_database)
   \<and> (case put_event parseRRule generateInstances 20179 1 (Some (sample_body\<lparr>b_recurrenceRule := Some ''FREQ=WEEKLY''\<rparr>)) (idle (keyed sample_database)) of (response, s') \<Rightarrow>
            response = Updated (Some ((sample_event\<lparr>e_id := 0\<rparr>)\<lparr>e_id := 1\<rparr>)) (select_instances 1 (db s'))
            \<and> i_instance_date ` set (generateInstances ((sample_event\<lparr>e_id := 0\<rparr>)\<lparr>e_id := 1\<rparr>) (weekly_rule None) 10)
                \<subseteq> i_instance_date ` set (select_instances 1 (db s'))
            \<and> length (filter (\<lambda>i. i_instance_date i \<notin> set (exception_dates 1 (db (idle (keyed sample_database)))))
                         (select_instances 1 (db s'))) \<le> 10)"
proof -
  have h1: "r_count (weekly_rule None) = None"
    by (simp add: weekly_rule_def)
  have h2: "b_recurrenceRule (sample_body\<lparr>b_recurrenceRule := Some ''FREQ=WEEKLY''\<rparr>) = Some ''FREQ=WEEKLY''"
    by simp
  have h3: "''FREQ=WEEKLY'' \<noteq> []"
    by simp
  have h9: "\<forall>e \<in> set (Recurring_Events (db (idle sample_database))).
              e_id e \<le> seq_Recurring_Events (db (idle sample_database))"
    "\<forall>e \<in> set (Recurring_Events (db (idle (keyed sample_database)))).
              e_id e \<le> seq_Recurring_Events (db (idle (keyed sample_database)))"
    by (simp_all add: idle_sel keyed_def sample_database_def sample_event_def)
  have ten: "length (generateInstances ((sample_event\<lparr>e_id := 0\<rparr>)\<lparr>e_id := 1\<rparr>) (weekly_rule None) 10) = 10"
    by (simp add: weekly_occurrences weekly_rule_def)
  have g: "generateInstances ((sample_event\<lparr>e_id := 0\<rparr>)\<lparr>e_id := 1\<rparr>) (weekly_rule None) 10 \<noteq> []"
    using ten by auto
  note declared = default_bound_of_ten [where parse = parseRRule and gen = generateInstances
      and today = 20179 and eventId = 1 and existing = sample_event and s = "idle sample_database",
      OF h1 h2 h3 parse_weekly validate_sample(3) bound_sample(3) sample_healthy(1)
      sample_healthy(2) h9(1) generateInstances_length generateInstances_label]
  note with_key = default_bound_of_ten [where parse = parseRRule and gen = generateInstances
      and today = 20179 and eventId = 1 and existing = sample_event
      and s = "idle (keyed sample_database)",
      OF h1 h2 h3 parse_weekly validate_sample(3) bound_sample(3) keyed_healthy(1)
      keyed_healthy(2) h9(2) generateInstances_length generateInstances_label]
  note rest = declared [THEN conjunct2, THEN conjunct2, THEN conjunct2]
  note rest_with_key = with_key [THEN conjunct2, THEN conjunct2, THEN conjunct2]
  note c1 = declared [THEN conjunct1]
  note e1 = declared [THEN conjunct2, THEN conjunct1]
  note e2 = declared [THEN conjunct2, THEN conjunct2, THEN conjunct1]
  note c2 = rest [THEN conjunct1, THEN mp, OF sample_healthy(4)]
  note c3 = rest [THEN conjunct2, THEN conjunct1, THEN mp,
      OF conjI [OF sample_healthy(3) conjI [OF scope_sample(3) conjI [OF sample_healthy(4) g]]]]
  note c4 = rest_with_key [THEN conjunct2, THEN conjunct2, THEN mp,
      OF conjI [OF keyed_healthy(3) conjI [OF scope_sample(3) keyed_healthy(4)]]]
  show ?thesis
    by (intro conjI)
      (rule h1 h2 parse_weekly validate_sample(3) bound_sample(3) ten c1 e1 e2 c2 c3 c4)+
qed




text \<open>
  C10. A delete request whose scope is \<^verbatim>\<open>this\<close> or \<^verbatim>\<open>thisAndFuture\<close> and that
  carries no \<^verbatim>\<open>instanceDate\<close> takes none of the three branches: for an existing
  template, on a healthy store with no transaction open, the handler opens and commits an
  empty transaction, leaves every table as it was and answers with the success
  confirmation, not with an error.
\<close>

theorem delete_without_instanceDate:
  assumes "select_event eventId (db s) \<noteq> None"
    and "deleteScope = ''this'' \<or> deleteScope = ''thisAndFuture''"
    and "txn s = None" and "fault s = None"
  shows "delete_event eventId (Some deleteScope) None s =
           (Success ''Event cancelled successfully'' deleteScope, s)"
  using assms
  by (auto simp: delete_event_def scope_or_all_def delete_statements_def BEGIN_def COMMIT_def
      tick_def)

theorem delete_without_instanceDate_witness:
  "select_event 1 (db (idle sample_database)) \<noteq> None
   \<and> (''thisAndFuture'' = ''this'' \<or> ''thisAndFuture'' = ''thisAndFuture'')
   \<and> txn (idle sample_database) = None \<and> fault (idle sample_database) = None
   \<and> delete_event 1 (Some ''thisAndFuture'') None (idle sample_database)
       = (Success ''Event cancelled successfully'' ''thisAndFuture'', idle sample_database)"
  using delete_without_instanceDate [of 1 "idle sample_database" "''thisAndFuture''"]
  by (simp add: idle_sel select_sample)

end
